theory Spec2Isabelle
  imports Main
begin

section \<open>The event bus of PostgresListener\<close>

text \<open>
  The class keeps \<^verbatim>\<open>this.listeners = new Map()\<close>, from an event name to a JavaScript
  array of callbacks. An array is an object: \<^verbatim>\<open>on\<close> pushes onto it and \<^verbatim>\<open>off\<close> splices
  it in place, while \<^verbatim>\<open>emit\<close> is still iterating over the same object. The model
  therefore keeps the map from event names to array references and a store from
  references to array contents. A callback is a function object, compared by identity
  (\<^verbatim>\<open>indexOf\<close> uses strict equality); it is modelled by a number naming the object.
\<close>

type_synonym topic = string
type_synonym callback = nat
type_synonym addr = nat

datatype error = Error string | TypeError string | SyntaxError string

record registry =
  listeners :: "topic \<rightharpoonup> addr"
  heap :: "addr \<Rightarrow> callback list"
  next_addr :: addr

text \<open>JSON values, as the trigger function and the probe build them.\<close>

datatype json = JNull | JBool bool | JNumber int | JString string

type_synonym json_object = "(string \<times> json) list"

text \<open>The query texts the class sends, and the operations it starts on a client object
  (a number names the object) or on the timer.\<close>

datatype sql =
    Sql_createFunctionQuery
  | Sql_createTriggerQuery
  | LISTEN string
  | UNLISTEN string
  | SELECT_pg_notify string json_object

datatype call = ClientConnect nat | ClientQuery nat sql | ClientEnd nat | SetTimeout nat

datatype api = Api_connect | Api_disconnect | Api_testNotification

text \<open>What a run shows, in the order it happens: the lines of the console, the calls of
  subscribers' callbacks, the operations started (each with the number it is settled by),
  the promises of the public methods settled, and an error nobody caught.\<close>

datatype 'd effect =
    Log string
  | LogData string 'd
  | LogErr string error
  | Called callback 'd
  | Request nat call
  | Settled api "error option"
  | Uncaught error

text \<open>\<^verbatim>\<open>this.listeners = new Map()\<close> of the constructor.\<close>

definition new_Map :: registry where
  "new_Map = \<lparr>listeners = Map.empty, heap = (\<lambda>_. []), next_addr = 0\<rparr>"

text \<open>The callbacks registered for an event, as \<^verbatim>\<open>this.listeners.get(event)\<close> reads them
  (no entry reads as no callbacks).\<close>

definition registered :: "registry \<Rightarrow> topic \<Rightarrow> callback list" where
  "registered s event = (case listeners s event of None \<Rightarrow> [] | Some a \<Rightarrow> heap s a)"

text \<open>
  \<^verbatim>\<open>on(event, callback)\<close>: a missing entry gets a fresh empty array, then the callback is
  pushed onto the entry's array.
\<close>

definition on :: "topic \<Rightarrow> callback \<Rightarrow> registry \<Rightarrow> registry" where
  "on event cb s =
     (case listeners s event of
        None \<Rightarrow>
          s\<lparr>listeners := (listeners s)(event \<mapsto> next_addr s),
            heap := (heap s)(next_addr s := [cb]),
            next_addr := Suc (next_addr s)\<rparr>
      | Some a \<Rightarrow> s\<lparr>heap := (heap s)(a := heap s a @ [cb])\<rparr>)"

text \<open>\<^verbatim>\<open>Array.prototype.indexOf\<close>: the first index holding the element, or -1.\<close>

fun indexOf_from :: "'a list \<Rightarrow> 'a \<Rightarrow> int \<Rightarrow> int" where
  "indexOf_from [] x i = - 1"
| "indexOf_from (y # ys) x i = (if y = x then i else indexOf_from ys x (i + 1))"

definition indexOf :: "'a list \<Rightarrow> 'a \<Rightarrow> int" where
  "indexOf xs x = indexOf_from xs x 0"

text \<open>\<^verbatim>\<open>callbacks.splice(index, 1)\<close> for an index inside the array.\<close>

definition splice1 :: "int \<Rightarrow> 'a list \<Rightarrow> 'a list" where
  "splice1 index xs = take (nat index) xs @ drop (Suc (nat index)) xs"

text \<open>
  \<^verbatim>\<open>off(event, callback)\<close>: with an entry for the event, the first occurrence of the
  callback is spliced out of the entry's array, in place.
\<close>

definition off :: "topic \<Rightarrow> callback \<Rightarrow> registry \<Rightarrow> registry" where
  "off event cb s =
     (case listeners s event of
        None \<Rightarrow> s
      | Some a \<Rightarrow>
          (let callbacks = heap s a; index = indexOf callbacks cb
           in if index > - 1 then s\<lparr>heap := (heap s)(a := splice1 index callbacks)\<rparr> else s))"

text \<open>
  \<^verbatim>\<open>removeAllListeners(event)\<close>: a truthy event name deletes that entry; no argument,
  or the empty string (falsy in JavaScript), clears the whole map.
\<close>

definition removeAllListeners :: "topic option \<Rightarrow> registry \<Rightarrow> registry" where
  "removeAllListeners event s =
     (case event of
        None \<Rightarrow> s\<lparr>listeners := Map.empty\<rparr>
      | Some e \<Rightarrow>
          if e \<noteq> [] then s\<lparr>listeners := (listeners s)(e := None)\<rparr>
          else s\<lparr>listeners := Map.empty\<rparr>)"

text \<open>
  A callback is arbitrary JavaScript: it returns or throws, and it may reach the
  listener and change the registry while \<^verbatim>\<open>emit\<close> runs. \<open>run cb d s\<close> is what calling
  callback \<open>cb\<close> on data \<open>d\<close> does in registry \<open>s\<close>: the error it throws, if any, and
  the registry it leaves.
\<close>

type_synonym 'd handlers = "callback \<Rightarrow> 'd \<Rightarrow> registry \<Rightarrow> error option \<times> registry"

text \<open>
  \<^verbatim>\<open>Array.prototype.forEach\<close> reads the length once, then visits the indices
  \<open>k = 0, 1, ...\<close> below it, skipping an index the array no longer has, and reads
  the element at \<open>k\<close> from the live array. \<open>forEach run a d k n\<close> visits the \<open>n\<close>
  indices from \<open>k\<close> on of the array at \<open>a\<close>; the body is the arrow function of \<^verbatim>\<open>emit\<close>:
  call the callback, catch what it throws and log it.
\<close>

fun forEach :: "'d handlers \<Rightarrow> addr \<Rightarrow> 'd \<Rightarrow> nat \<Rightarrow> nat \<Rightarrow> registry
    \<Rightarrow> registry \<times> 'd effect list" where
  "forEach run a d k 0 s = (s, [])"
| "forEach run a d k (Suc n) s =
     (if k < length (heap s a) then
        (let cb = heap s a ! k;
             (thrown, s1) = run cb d s;
             logged = (case thrown of None \<Rightarrow> []
                       | Some e \<Rightarrow> [LogErr ''Error in event callback:'' e]);
             (s2, rest) = forEach run a d (Suc k) n s1
         in (s2, Called cb d # logged @ rest))
      else forEach run a d (Suc k) n s)"

definition emit :: "'d handlers \<Rightarrow> topic \<Rightarrow> 'd \<Rightarrow> registry \<Rightarrow> registry \<times> 'd effect list" where
  "emit run event d s =
     (case listeners s event of
        None \<Rightarrow> (s, [])
      | Some a \<Rightarrow> forEach run a d 0 (length (heap s a)) s)"

text \<open>What \<^verbatim>\<open>emit\<close> does with one callback that leaves the registry alone: the call,
  and the log line when it throws.\<close>

definition delivery :: "'d handlers \<Rightarrow> 'd \<Rightarrow> registry \<Rightarrow> callback \<Rightarrow> 'd effect list" where
  "delivery run d s cb =
     Called cb d # (case fst (run cb d s) of None \<Rightarrow> []
                    | Some e \<Rightarrow> [LogErr ''Error in event callback:'' e])"

text \<open>
  No two event names share an array, and every array in use was allocated: what the
  constructor sets up and \<^verbatim>\<open>on\<close>, \<^verbatim>\<open>off\<close> and \<^verbatim>\<open>removeAllListeners\<close> keep.
\<close>

definition wf_registry :: "registry \<Rightarrow> bool" where
  "wf_registry s \<longleftrightarrow>
     inj_on (listeners s) (dom (listeners s)) \<and> (\<forall>a \<in> ran (listeners s). a < next_addr s)"

text \<open>A callback that unregisters itself when called, as a run-once handler does, and
  one that throws; every other callback returns at once.\<close>

definition once_handlers :: "unit handlers" where
  "once_handlers cb d s = (if cb = 0 then (None, off ''message_change'' 0 s) else (None, s))"

definition throwing_handlers :: "unit handlers" where
  "throwing_handlers cb d s = (if cb = 0 then (Some (Error ''boom''), s) else (None, s))"

section \<open>The trigger function and its installation\<close>

text \<open>
  \<^verbatim>\<open>setupTriggers\<close> sends two queries: \<^verbatim>\<open>createFunctionQuery\<close> (CREATE OR REPLACE FUNCTION
  \<^verbatim>\<open>notify_message_change\<close>) and \<^verbatim>\<open>createTriggerQuery\<close> (DROP TRIGGER IF EXISTS, then
  CREATE TRIGGER). A row of \<^verbatim>\<open>messages\<close> has the columns the function reads.
\<close>

record row =
  id' :: int
  group_uuid :: string
  sender_uuid :: string
  content :: string
  file' :: "string option"
  created_date :: string
  is_deleted :: bool

text \<open>The variables PL/pgSQL gives a row-level trigger function. \<open>NEW\<close> is null in a
  DELETE and \<open>OLD\<close> in an INSERT; a field of a null record reads as null.\<close>

record trigger_data =
  TG_OP :: string
  TG_TABLE_NAME :: string
  NEW :: "row option"
  OLD :: "row option"

definition col :: "(row \<Rightarrow> json) \<Rightarrow> row option \<Rightarrow> json" where
  "col f r = (case r of None \<Rightarrow> JNull | Some x \<Rightarrow> f x)"

definition nullable :: "string option \<Rightarrow> json" where
  "nullable v = (case v of None \<Rightarrow> JNull | Some x \<Rightarrow> JString x)"

text \<open>The IF ... ELSIF ... END IF of the function body: the value of \<^verbatim>\<open>payload\<close> when
  \<^verbatim>\<open>pg_notify\<close> is reached (\<open>None\<close> is SQL null: no branch assigned it).\<close>

definition build_payload :: "trigger_data \<Rightarrow> json_object option" where
  "build_payload td =
     (if TG_OP td = ''INSERT'' then
        Some [(''operation'', JString (TG_OP td)),
              (''table'', JString (TG_TABLE_NAME td)),
              (''id'', col (\<lambda>r. JNumber (id' r)) (NEW td)),
              (''group_uuid'', col (\<lambda>r. JString (group_uuid r)) (NEW td)),
              (''sender_uuid'', col (\<lambda>r. JString (sender_uuid r)) (NEW td)),
              (''content'', col (\<lambda>r. JString (content r)) (NEW td)),
              (''file'', col (\<lambda>r. nullable (file' r)) (NEW td)),
              (''created_date'', col (\<lambda>r. JString (created_date r)) (NEW td)),
              (''is_deleted'', col (\<lambda>r. JBool (is_deleted r)) (NEW td))]
      else if TG_OP td = ''UPDATE'' then
        Some [(''operation'', JString (TG_OP td)),
              (''table'', JString (TG_TABLE_NAME td)),
              (''id'', col (\<lambda>r. JNumber (id' r)) (NEW td)),
              (''group_uuid'', col (\<lambda>r. JString (group_uuid r)) (NEW td)),
              (''sender_uuid'', col (\<lambda>r. JString (sender_uuid r)) (NEW td)),
              (''content'', col (\<lambda>r. JString (content r)) (NEW td)),
              (''file'', col (\<lambda>r. nullable (file' r)) (NEW td)),
              (''created_date'', col (\<lambda>r. JString (created_date r)) (NEW td)),
              (''is_deleted'', col (\<lambda>r. JBool (is_deleted r)) (NEW td)),
              (''old_id'', col (\<lambda>r. JNumber (id' r)) (OLD td)),
              (''old_content'', col (\<lambda>r. JString (content r)) (OLD td)),
              (''old_is_deleted'', col (\<lambda>r. JBool (is_deleted r)) (OLD td))]
      else if TG_OP td = ''DELETE'' then
        Some [(''operation'', JString (TG_OP td)),
              (''table'', JString (TG_TABLE_NAME td)),
              (''id'', col (\<lambda>r. JNumber (id' r)) (OLD td)),
              (''group_uuid'', col (\<lambda>r. JString (group_uuid r)) (OLD td)),
              (''sender_uuid'', col (\<lambda>r. JString (sender_uuid r)) (OLD td))]
      else None)"

text \<open>A notification: the channel and the payload handed to \<^verbatim>\<open>pg_notify\<close>.\<close>

record notification =
  channel :: string
  payload :: "json_object option"

definition coalesce :: "'a option \<Rightarrow> 'a option \<Rightarrow> 'a option" where
  "coalesce a b = (case a of None \<Rightarrow> b | Some x \<Rightarrow> Some x)"

text \<open>
  \<^verbatim>\<open>pg_notify(channel, payload::text)\<close>. The cast of the JSON value to text is
  PostgreSQL's: \<open>as_text\<close> gives the text of an object. \<^verbatim>\<open>pg_notify\<close> raises an error
  when the text is 8000 bytes or longer, and the statement that fired the trigger is
  aborted; a null payload is sent as an empty one.
\<close>

type_synonym json_text = "json_object \<Rightarrow> string"

definition pg_notify :: "json_text \<Rightarrow> string \<Rightarrow> json_object option \<Rightarrow> error + notification" where
  "pg_notify as_text chan p =
     (case p of
        None \<Rightarrow> Inr \<lparr>channel = chan, payload = None\<rparr>
      | Some obj \<Rightarrow>
          if 8000 \<le> length (as_text obj) then Inl (Error ''payload string too long'')
          else Inr \<lparr>channel = chan, payload = Some obj\<rparr>)"

text \<open>The whole function: the error it raises, or the notification it performs and the
  row it returns.\<close>

definition notify_message_change ::
    "json_text \<Rightarrow> trigger_data \<Rightarrow> error + notification \<times> row option" where
  "notify_message_change as_text td =
     (case pg_notify as_text ''message_changes'' (build_payload td) of
        Inl e \<Rightarrow> Inl e
      | Inr n \<Rightarrow> Inr (n, coalesce (NEW td) (OLD td)))"

text \<open>
  The part of the database catalog the two queries touch: the tables, the functions by
  name, and the row-level AFTER triggers. The statements act on it as PostgreSQL
  documents them: CREATE OR REPLACE FUNCTION defines the function or replaces its
  body; DROP TRIGGER IF EXISTS removes the trigger of that name on that table and
  succeeds when there is none; CREATE TRIGGER fails when the table or the function
  is missing or the table already has a trigger of that name. The connection's role
  is taken to own the objects: privilege checks are not part of the model.
\<close>

type_synonym trigger_function = "trigger_data \<Rightarrow> error + notification \<times> row option"

record trigger =
  tgname :: string
  tgrelation :: string
  tgevents :: "string list"
  tgfunction :: string

record database =
  tables :: "string list"
  procs :: "string \<rightharpoonup> trigger_function"
  triggers :: "trigger list"

datatype statement =
    CREATE_OR_REPLACE_FUNCTION string trigger_function
  | DROP_TRIGGER_IF_EXISTS string string
  | CREATE_TRIGGER trigger

definition names_trigger :: "string \<Rightarrow> string \<Rightarrow> trigger \<Rightarrow> bool" where
  "names_trigger name relation t \<longleftrightarrow> tgname t = name \<and> tgrelation t = relation"

fun exec_statement :: "statement \<Rightarrow> database \<Rightarrow> error + database" where
  "exec_statement (CREATE_OR_REPLACE_FUNCTION name body) db =
     Inr (db\<lparr>procs := (procs db)(name \<mapsto> body)\<rparr>)"
| "exec_statement (DROP_TRIGGER_IF_EXISTS name relation) db =
     Inr (db\<lparr>triggers := filter (\<lambda>t. \<not> names_trigger name relation t) (triggers db)\<rparr>)"
| "exec_statement (CREATE_TRIGGER t) db =
     (if tgrelation t \<notin> set (tables db) then Inl (Error ''relation does not exist'')
      else if procs db (tgfunction t) = None then Inl (Error ''function does not exist'')
      else if list_ex (names_trigger (tgname t) (tgrelation t)) (triggers db)
        then Inl (Error ''trigger already exists'')
      else Inr (db\<lparr>triggers := triggers db @ [t]\<rparr>))"

fun exec_statements :: "statement list \<Rightarrow> database \<Rightarrow> error + database" where
  "exec_statements [] db = Inr db"
| "exec_statements (st # sts) db =
     (case exec_statement st db of Inl e \<Rightarrow> Inl e | Inr db1 \<Rightarrow> exec_statements sts db1)"

text \<open>One \<^verbatim>\<open>client.query(text)\<close>: the statements of the text run in one implicit
  transaction, so a failing statement leaves the database as it was before the query.\<close>

definition query :: "statement list \<Rightarrow> database \<Rightarrow> error option \<times> database" where
  "query sts db = (case exec_statements sts db of Inl e \<Rightarrow> (Some e, db) | Inr db1 \<Rightarrow> (None, db1))"

definition createFunctionQuery :: "json_text \<Rightarrow> statement list" where
  "createFunctionQuery as_text =
     [CREATE_OR_REPLACE_FUNCTION ''notify_message_change'' (notify_message_change as_text)]"

definition messages_notify_trigger :: trigger where
  "messages_notify_trigger =
     \<lparr>tgname = ''messages_notify_trigger'', tgrelation = ''messages'',
      tgevents = [''INSERT'', ''UPDATE'', ''DELETE''], tgfunction = ''notify_message_change''\<rparr>"

definition createTriggerQuery :: "statement list" where
  "createTriggerQuery =
     [DROP_TRIGGER_IF_EXISTS ''messages_notify_trigger'' ''messages'',
      CREATE_TRIGGER messages_notify_trigger]"

text \<open>What the two awaited queries of \<^verbatim>\<open>setupTriggers\<close> do to the database; the first
  error is the one thrown, and the second query is not sent after it.\<close>

definition setupTriggers_on :: "json_text \<Rightarrow> database \<Rightarrow> error option \<times> database" where
  "setupTriggers_on as_text db =
     (case query (createFunctionQuery as_text) db of
        (Some e, db1) \<Rightarrow> (Some e, db1)
      | (None, db1) \<Rightarrow> query createTriggerQuery db1)"

text \<open>\<open>n\<close> runs of \<^verbatim>\<open>setupTriggers\<close> in a row: the errors thrown, and the database left.\<close>

fun setupTriggers_times :: "json_text \<Rightarrow> nat \<Rightarrow> database \<Rightarrow> error list \<times> database" where
  "setupTriggers_times as_text 0 db = ([], db)"
| "setupTriggers_times as_text (Suc n) db =
     (let (errs, db1) = setupTriggers_times as_text n db; (err, db2) = setupTriggers_on as_text db1
      in (errs @ (case err of None \<Rightarrow> [] | Some e \<Rightarrow> [e]), db2))"

text \<open>What one successful run of \<^verbatim>\<open>setupTriggers\<close> leaves (shown below to be what
  the two queries compute): the function under its name, and the trigger as the only
  one of its name on \<^verbatim>\<open>messages\<close>.\<close>

definition installed :: "json_text \<Rightarrow> database \<Rightarrow> database" where
  "installed as_text db =
     db\<lparr>procs := (procs db)(''notify_message_change'' \<mapsto> notify_message_change as_text),
        triggers := filter (\<lambda>t. \<not> names_trigger ''messages_notify_trigger'' ''messages'' t)
                      (triggers db) @ [messages_notify_trigger]\<rparr>"

text \<open>
  A statement changes a list of rows of one table. The trigger is declared FOR EACH
  ROW: for every row changed, each trigger on the table that is declared for the
  operation runs its function once, with that row as \<open>OLD\<close> (UPDATE, DELETE) and
  \<open>NEW\<close> (INSERT, UPDATE). A function that raises aborts the statement.
\<close>

definition fires :: "trigger_data \<Rightarrow> trigger \<Rightarrow> bool" where
  "fires td t \<longleftrightarrow> tgrelation t = TG_TABLE_NAME td \<and> TG_OP td \<in> set (tgevents t)"

fun run_triggers :: "database \<Rightarrow> trigger_data \<Rightarrow> trigger list \<Rightarrow> error + notification list" where
  "run_triggers db td [] = Inr []"
| "run_triggers db td (t # ts) =
     (case procs db (tgfunction t) of
        None \<Rightarrow> Inl (Error ''function does not exist'')
      | Some f \<Rightarrow>
          (case f td of
             Inl e \<Rightarrow> Inl e
           | Inr (n, returned) \<Rightarrow>
               (case run_triggers db td ts of Inl e \<Rightarrow> Inl e | Inr ns \<Rightarrow> Inr (n # ns))))"

definition row_notifies :: "database \<Rightarrow> trigger_data \<Rightarrow> error + notification list" where
  "row_notifies db td = run_triggers db td (filter (fires td) (triggers db))"

type_synonym row_change = "row option \<times> row option"

definition row_data :: "string \<Rightarrow> string \<Rightarrow> row_change \<Rightarrow> trigger_data" where
  "row_data op relation r = \<lparr>TG_OP = op, TG_TABLE_NAME = relation, NEW = snd r, OLD = fst r\<rparr>"

text \<open>The \<^verbatim>\<open>pg_notify\<close> calls of one statement (operation, table, rows changed), and of the
  statements of one transaction, in order; or the error that aborts it.\<close>

fun statement_notifies ::
    "database \<Rightarrow> string \<Rightarrow> string \<Rightarrow> row_change list \<Rightarrow> error + notification list" where
  "statement_notifies db op relation [] = Inr []"
| "statement_notifies db op relation (r # rs) =
     (case row_notifies db (row_data op relation r) of
        Inl e \<Rightarrow> Inl e
      | Inr ns \<Rightarrow>
          (case statement_notifies db op relation rs of
             Inl e \<Rightarrow> Inl e
           | Inr ms \<Rightarrow> Inr (ns @ ms)))"

fun transaction_notifies ::
    "database \<Rightarrow> (string \<times> string \<times> row_change list) list \<Rightarrow> error + notification list" where
  "transaction_notifies db [] = Inr []"
| "transaction_notifies db ((op, relation, rows) # sts) =
     (case statement_notifies db op relation rows of
        Inl e \<Rightarrow> Inl e
      | Inr ns \<Rightarrow>
          (case transaction_notifies db sts of Inl e \<Rightarrow> Inl e | Inr ms \<Rightarrow> Inr (ns @ ms)))"

text \<open>
  What listeners receive when the transaction commits. PostgreSQL keeps the
  notifications of a transaction in the order sent and does not queue one whose
  channel and payload text are those of one already queued; the text of a payload
  determines the payload, so equal notifications are the ones left out.
\<close>

fun queue :: "notification list \<Rightarrow> notification list \<Rightarrow> notification list" where
  "queue queued [] = queued"
| "queue queued (n # ns) = (if n \<in> set queued then queue queued ns else queue (queued @ [n]) ns)"

definition commit ::
    "database \<Rightarrow> (string \<times> string \<times> row_change list) list \<Rightarrow> error + notification list" where
  "commit db sts =
     (case transaction_notifies db sts of Inl e \<Rightarrow> Inl e | Inr ns \<Rightarrow> Inr (queue [] ns))"

text \<open>The payload of a row's notification is short enough for \<^verbatim>\<open>pg_notify\<close>.\<close>

definition fits :: "json_text \<Rightarrow> trigger_data \<Rightarrow> bool" where
  "fits as_text td =
     (case build_payload td of None \<Rightarrow> True | Some obj \<Rightarrow> length (as_text obj) < 8000)"

text \<open>
  For running examples: the text PostgreSQL gives an object built by
  \<^verbatim>\<open>json_build_object\<close>, for strings that need no escaping, and a database with the
  \<^verbatim>\<open>messages\<close> table and nothing installed, and three rows.
\<close>

fun digits :: "nat \<Rightarrow> string" where
  "digits n =
     (if n < 10 then [''0123456789'' ! n]
      else digits (n div 10) @ [''0123456789'' ! (n mod 10)])"

fun plain_json :: "json \<Rightarrow> string" where
  "plain_json JNull = ''null''"
| "plain_json (JBool b) = (if b then ''true'' else ''false'')"
| "plain_json (JNumber i) = (if i < 0 then ''-'' @ digits (nat (- i)) else digits (nat i))"
| "plain_json (JString s) = CHR 0x22 # s @ [CHR 0x22]"

fun plain_members :: "json_object \<Rightarrow> string" where
  "plain_members [] = []"
| "plain_members [(k, v)] = CHR 0x22 # k @ [CHR 0x22] @ '' : '' @ plain_json v"
| "plain_members ((k, v) # kvs) =
     CHR 0x22 # k @ [CHR 0x22] @ '' : '' @ plain_json v @ '', '' @ plain_members kvs"

definition plain_text :: json_text where
  "plain_text obj = ''{'' @ plain_members obj @ ''}''"

definition empty_database :: database where
  "empty_database = \<lparr>tables = [''messages''], procs = Map.empty, triggers = []\<rparr>"

definition row_before :: row where
  "row_before = \<lparr>id' = 7, group_uuid = ''g'', sender_uuid = ''u'', content = ''hi'',
     file' = Some ''a.png'', created_date = ''2024-01-01T00:00:00+00:00'', is_deleted = False\<rparr>"

definition row_after :: row where
  "row_after = row_before\<lparr>is_deleted := True\<rparr>"

definition row_other :: row where
  "row_other = row_before\<lparr>id' := 8, content := ''bye''\<rparr>"

section \<open>The connection lifecycle\<close>

text \<open>
  The methods are \<^verbatim>\<open>async\<close>: each runs until its next \<^verbatim>\<open>await\<close>, and resumes when the
  awaited operation settles. The model keeps, for every operation the listener is
  waiting for, where the method resumes. The database client is outside the class:
  when an operation settles, when a timer fires and when a client object emits
  \<^verbatim>\<open>notification\<close>, \<^verbatim>\<open>error\<close> or \<^verbatim>\<open>end\<close> are inputs. \<^verbatim>\<open>connect()\<close> is awaited by the
  application or by \<^verbatim>\<open>reconnect()\<close>.
\<close>

datatype caller = Caller_api | Caller_reconnect

datatype kont =
    Await_client_connect caller
  | Await_createFunctionQuery caller
  | Await_createTriggerQuery caller
  | Await_LISTEN caller
  | Await_reconnect_end
  | Await_reconnect_delay
  | Retry_timer
  | Await_UNLISTEN
  | Await_disconnect_end
  | Await_pg_notify

record 'd listener =
  client :: "nat option"
  isListening :: bool
  bus :: registry
  next_client :: nat
  handlers_on :: "nat \<Rightarrow> nat"
  pending :: "(nat \<times> kont) list"
  next_op :: nat
  trace :: "'d effect list"

text \<open>The constructor. \<open>handlers_on s c\<close> counts how often \<^verbatim>\<open>startListening\<close> has
  attached its three handlers to client \<open>c\<close>.\<close>

definition constructor :: "'d listener" where
  "constructor =
     \<lparr>client = None, isListening = False, bus = new_Map, next_client = 0,
      handlers_on = (\<lambda>_. 0), pending = [], next_op = 0, trace = []\<rparr>"

definition say :: "'d effect list \<Rightarrow> 'd listener \<Rightarrow> 'd listener" where
  "say es s = s\<lparr>trace := trace s @ es\<rparr>"

text \<open>Start an operation and suspend until it settles.\<close>

definition await :: "call \<Rightarrow> kont \<Rightarrow> 'd listener \<Rightarrow> 'd listener" where
  "await c k s =
     s\<lparr>pending := pending s @ [(next_op s, k)],
       next_op := Suc (next_op s),
       trace := trace s @ [Request (next_op s) c]\<rparr>"

text \<open>Reading a method of \<^verbatim>\<open>this.client\<close> while it is still \<^verbatim>\<open>null\<close> throws.\<close>

definition null_client :: error where
  "null_client = TypeError ''Cannot read properties of null''"

definition test_payload :: json_object where
  "test_payload =
     [(''operation'', JString ''TEST''), (''table'', JString ''messages''),
      (''message'', JString ''Test notification'')]"

text \<open>\<^verbatim>\<open>connect()\<close> up to its first \<^verbatim>\<open>await\<close>: a new client object replaces
  \<^verbatim>\<open>this.client\<close> and is asked to connect.\<close>

definition connect :: "caller \<Rightarrow> 'd listener \<Rightarrow> 'd listener" where
  "connect who s =
     await (ClientConnect (next_client s)) (Await_client_connect who)
       (s\<lparr>client := Some (next_client s), next_client := Suc (next_client s)\<rparr>)"

text \<open>The \<^verbatim>\<open>catch\<close> block of \<^verbatim>\<open>reconnect()\<close>: log, and try again in ten seconds.\<close>

definition reconnect_catch :: "error \<Rightarrow> 'd listener \<Rightarrow> 'd listener" where
  "reconnect_catch e s =
     await (SetTimeout 10000) Retry_timer (say [LogErr ''Reconnection failed:'' e] s)"

text \<open>\<^verbatim>\<open>connect()\<close> returning to, or throwing into, whoever awaits it.\<close>

definition connect_returns :: "caller \<Rightarrow> 'd listener \<Rightarrow> 'd listener" where
  "connect_returns who s =
     (case who of Caller_api \<Rightarrow> say [Settled Api_connect None] s | Caller_reconnect \<Rightarrow> s)"

definition connect_throws :: "caller \<Rightarrow> error \<Rightarrow> 'd listener \<Rightarrow> 'd listener" where
  "connect_throws who e s =
     (let s1 = say [LogErr ''Failed to connect PostgreSQL listener:'' e] s
      in case who of
           Caller_api \<Rightarrow> say [Settled Api_connect (Some e)] s1
         | Caller_reconnect \<Rightarrow> reconnect_catch e s1)"

definition setupTriggers_throws :: "caller \<Rightarrow> error \<Rightarrow> 'd listener \<Rightarrow> 'd listener" where
  "setupTriggers_throws who e s =
     connect_throws who e (say [LogErr ''Failed to set up triggers:'' e] s)"

definition startListening_throws :: "caller \<Rightarrow> error \<Rightarrow> 'd listener \<Rightarrow> 'd listener" where
  "startListening_throws who e s =
     connect_throws who e (say [LogErr ''Failed to start listening:'' e] s)"

text \<open>\<^verbatim>\<open>setupTriggers()\<close> and \<^verbatim>\<open>startListening()\<close> up to their first \<^verbatim>\<open>await\<close>.\<close>

definition setupTriggers :: "caller \<Rightarrow> 'd listener \<Rightarrow> 'd listener" where
  "setupTriggers who s =
     (case client s of
        None \<Rightarrow> setupTriggers_throws who null_client s
      | Some c \<Rightarrow> await (ClientQuery c Sql_createFunctionQuery) (Await_createFunctionQuery who) s)"

definition startListening :: "caller \<Rightarrow> 'd listener \<Rightarrow> 'd listener" where
  "startListening who s =
     (case client s of
        None \<Rightarrow> startListening_throws who null_client s
      | Some c \<Rightarrow> await (ClientQuery c (LISTEN ''message_changes'')) (Await_LISTEN who) s)"

text \<open>\<^verbatim>\<open>reconnect()\<close> up to its first \<^verbatim>\<open>await\<close>.\<close>

definition reconnect :: "'d listener \<Rightarrow> 'd listener" where
  "reconnect s =
     (if isListening s then s
      else
        (let s1 = say [Log ''Attempting to reconnect PostgreSQL listener...''] s
         in case client s1 of
              Some c \<Rightarrow> await (ClientEnd c) Await_reconnect_end s1
            | None \<Rightarrow> await (SetTimeout 5000) Await_reconnect_delay s1))"

text \<open>\<^verbatim>\<open>disconnect()\<close> and \<^verbatim>\<open>testNotification()\<close> up to their first \<^verbatim>\<open>await\<close>, and their
  \<^verbatim>\<open>catch\<close> blocks, which log and let the method return normally.\<close>

definition disconnect_catch :: "error \<Rightarrow> 'd listener \<Rightarrow> 'd listener" where
  "disconnect_catch e s =
     say [LogErr ''Error disconnecting PostgreSQL listener:'' e, Settled Api_disconnect None] s"

definition disconnect :: "'d listener \<Rightarrow> 'd listener" where
  "disconnect s =
     (case client s of
        None \<Rightarrow> say [Settled Api_disconnect None] s
      | Some c \<Rightarrow> await (ClientQuery c (UNLISTEN ''message_changes'')) Await_UNLISTEN s)"

definition testNotification_catch :: "error \<Rightarrow> 'd listener \<Rightarrow> 'd listener" where
  "testNotification_catch e s =
     say [LogErr ''Failed to send test notification:'' e, Settled Api_testNotification None] s"

definition testNotification :: "'d listener \<Rightarrow> 'd listener" where
  "testNotification s =
     (case client s of
        None \<Rightarrow> testNotification_catch null_client s
      | Some c \<Rightarrow>
          await (ClientQuery c (SELECT_pg_notify ''message_changes'' test_payload))
            Await_pg_notify s)"

text \<open>
  A method resuming after its \<^verbatim>\<open>await\<close>: the operation was fulfilled (\<open>None\<close>) or
  rejected with an error. The two timers can only fire.
\<close>

fun resume :: "kont \<Rightarrow> error option \<Rightarrow> 'd listener \<Rightarrow> 'd listener" where
  "resume (Await_client_connect who) None s =
     setupTriggers who (say [Log ''PostgreSQL listener connected successfully''] s)"
| "resume (Await_client_connect who) (Some e) s = connect_throws who e s"
| "resume (Await_createFunctionQuery who) None s =
     (case client s of
        None \<Rightarrow> setupTriggers_throws who null_client s
      | Some c \<Rightarrow> await (ClientQuery c Sql_createTriggerQuery) (Await_createTriggerQuery who) s)"
| "resume (Await_createFunctionQuery who) (Some e) s = setupTriggers_throws who e s"
| "resume (Await_createTriggerQuery who) None s =
     startListening who (say [Log ''PostgreSQL triggers set up successfully''] s)"
| "resume (Await_createTriggerQuery who) (Some e) s = setupTriggers_throws who e s"
| "resume (Await_LISTEN who) None s =
     (let s1 = say [Log ''Started listening to message_changes channel''] (s\<lparr>isListening := True\<rparr>)
      in case client s1 of
           None \<Rightarrow> startListening_throws who null_client s1
         | Some c \<Rightarrow>
             connect_returns who (s1\<lparr>handlers_on := (handlers_on s1)(c := Suc (handlers_on s1 c))\<rparr>))"
| "resume (Await_LISTEN who) (Some e) s = startListening_throws who e s"
| "resume Await_reconnect_end None s = await (SetTimeout 5000) Await_reconnect_delay s"
| "resume Await_reconnect_end (Some e) s = reconnect_catch e s"
| "resume Await_reconnect_delay r s = connect Caller_reconnect s"
| "resume Retry_timer r s = reconnect s"
| "resume Await_UNLISTEN None s =
     (case client s of
        None \<Rightarrow> disconnect_catch null_client s
      | Some c \<Rightarrow> await (ClientEnd c) Await_disconnect_end s)"
| "resume Await_UNLISTEN (Some e) s = disconnect_catch e s"
| "resume Await_disconnect_end None s =
     say [Log ''PostgreSQL listener disconnected'', Settled Api_disconnect None]
       (s\<lparr>isListening := False\<rparr>)"
| "resume Await_disconnect_end (Some e) s = disconnect_catch e s"
| "resume Await_pg_notify None s =
     say [Log ''Test notification sent'', Settled Api_testNotification None] s"
| "resume Await_pg_notify (Some e) s = testNotification_catch e s"

fun is_timer :: "kont \<Rightarrow> bool" where
  "is_timer Await_reconnect_delay = True"
| "is_timer Retry_timer = True"
| "is_timer k = False"

text \<open>
  \<^verbatim>\<open>handleNotification(msg)\<close>. \<^verbatim>\<open>JSON.parse\<close> is the language's: \<open>parse\<close> gives the
  parsed data or the error it throws.
\<close>

type_synonym 'd parser = "string \<Rightarrow> error + 'd"

definition handleNotification :: "'d parser \<Rightarrow> 'd handlers \<Rightarrow> string \<Rightarrow> 'd listener \<Rightarrow> 'd listener" where
  "handleNotification parse run msg_payload s =
     (case parse msg_payload of
        Inl e \<Rightarrow> say [LogErr ''Failed to parse notification payload:'' e] s
      | Inr d \<Rightarrow>
          (let (b, delivered) = emit run ''message_change'' d (bus s)
           in s\<lparr>bus := b, trace := trace s @ LogData ''Received notification:'' d # delivered\<rparr>))"

text \<open>The handlers \<^verbatim>\<open>startListening\<close> attaches for \<^verbatim>\<open>error\<close> and \<^verbatim>\<open>end\<close>.\<close>

definition on_error :: "error \<Rightarrow> 'd listener \<Rightarrow> 'd listener" where
  "on_error err s = reconnect (say [LogErr ''PostgreSQL listener error:'' err] s)"

definition on_end :: "'d listener \<Rightarrow> 'd listener" where
  "on_end s =
     reconnect ((say [Log ''PostgreSQL listener connection ended''] s)\<lparr>isListening := False\<rparr>)"

text \<open>What happens to a listener: the application calls a method, an awaited operation
  settles (a timer fires), or a client object emits an event.\<close>

datatype 'd event =
    Call_connect
  | Call_disconnect
  | Call_testNotification
  | Call_on topic callback
  | Call_off topic callback
  | Call_removeAllListeners "topic option"
  | Fulfilled nat
  | Rejected nat error
  | Client_notification nat string
  | Client_error nat error
  | Client_end nat

definition settle :: "nat \<Rightarrow> error option \<Rightarrow> 'd listener \<Rightarrow> 'd listener" where
  "settle n r s =
     (case map_of (pending s) n of
        None \<Rightarrow> s
      | Some k \<Rightarrow>
          if r \<noteq> None \<and> is_timer k then s
          else resume k r (s\<lparr>pending := filter (\<lambda>p. fst p \<noteq> n) (pending s)\<rparr>))"

text \<open>An event of a client object runs every handler attached to that object; an
  \<^verbatim>\<open>error\<close> event nobody handles is thrown by the emitter.\<close>

fun step :: "'d parser \<Rightarrow> 'd handlers \<Rightarrow> 'd event \<Rightarrow> 'd listener \<Rightarrow> 'd listener" where
  "step parse run Call_connect s = connect Caller_api s"
| "step parse run Call_disconnect s = disconnect s"
| "step parse run Call_testNotification s = testNotification s"
| "step parse run (Call_on event cb) s = s\<lparr>bus := on event cb (bus s)\<rparr>"
| "step parse run (Call_off event cb) s = s\<lparr>bus := off event cb (bus s)\<rparr>"
| "step parse run (Call_removeAllListeners event) s = s\<lparr>bus := removeAllListeners event (bus s)\<rparr>"
| "step parse run (Fulfilled n) s = settle n None s"
| "step parse run (Rejected n e) s = settle n (Some e) s"
| "step parse run (Client_notification c msg_payload) s =
     (handleNotification parse run msg_payload ^^ handlers_on s c) s"
| "step parse run (Client_error c err) s =
     (if handlers_on s c = 0 then say [Uncaught err] s else (on_error err ^^ handlers_on s c) s)"
| "step parse run (Client_end c) s = (on_end ^^ handlers_on s c) s"

definition steps :: "'d parser \<Rightarrow> 'd handlers \<Rightarrow> 'd event list \<Rightarrow> 'd listener \<Rightarrow> 'd listener" where
  "steps parse run evs s = foldl (\<lambda>s1 ev. step parse run ev s1) s evs"

text \<open>The requests of a trace, and the calls it made to subscribers.\<close>

fun requests :: "'d effect list \<Rightarrow> call list" where
  "requests [] = []"
| "requests (Request n c # es) = c # requests es"
| "requests (e # es) = requests es"

fun deliveries :: "'d effect list \<Rightarrow> (callback \<times> 'd) list" where
  "deliveries [] = []"
| "deliveries (Called cb d # es) = (cb, d) # deliveries es"
| "deliveries (e # es) = deliveries es"

text \<open>The promises a trace settled: which method's, and with which error.\<close>

fun settled :: "'d effect list \<Rightarrow> (api \<times> error option) list" where
  "settled [] = []"
| "settled (Settled m r # es) = (m, r) # settled es"
| "settled (e # es) = settled es"

text \<open>The promises a trace rejected, and what subscribers and callers of the public
  methods have seen of a run: the callbacks called, the promises rejected, the
  registry.\<close>

fun rejections :: "'d effect list \<Rightarrow> (api \<times> error) list" where
  "rejections [] = []"
| "rejections (Settled m (Some e) # es) = (m, e) # rejections es"
| "rejections (e # es) = rejections es"

definition surfaced :: "'d listener \<Rightarrow> (callback \<times> 'd) list \<times> (api \<times> error) list \<times> registry" where
  "surfaced s = (deliveries (trace s), rejections (trace s), bus s)"

text \<open>
  How a client object reports the loss of its connection: it emits \<^verbatim>\<open>error\<close>, possibly
  more than once, and then \<^verbatim>\<open>end\<close>, once. The events of the connection and of the
  operations are the inputs that are not calls by the application and carry no
  notification.
\<close>

definition connection_failure :: "nat \<Rightarrow> error list \<Rightarrow> 'd event list" where
  "connection_failure c errs = map (Client_error c) errs @ [Client_end c]"

fun connection_event :: "'d event \<Rightarrow> bool" where
  "connection_event (Fulfilled n) = True"
| "connection_event (Rejected n e) = True"
| "connection_event (Client_error c e) = True"
| "connection_event (Client_end c) = True"
| "connection_event ev = False"

text \<open>Who awaits the \<^verbatim>\<open>connect()\<close> an awaited operation belongs to, and the listeners on
  which no \<^verbatim>\<open>connect()\<close> called by the application is under way.\<close>

fun awaited_by :: "kont \<Rightarrow> caller option" where
  "awaited_by (Await_client_connect who) = Some who"
| "awaited_by (Await_createFunctionQuery who) = Some who"
| "awaited_by (Await_createTriggerQuery who) = Some who"
| "awaited_by (Await_LISTEN who) = Some who"
| "awaited_by k = None"

definition no_api_connect :: "'d listener \<Rightarrow> bool" where
  "no_api_connect s \<longleftrightarrow> list_all (\<lambda>p. awaited_by (snd p) \<noteq> Some Caller_api) (pending s)"

text \<open>The listener is in the Listening state on client \<open>c\<close>: \<^verbatim>\<open>connect()\<close> completed on
  it. The numbers of the operations still awaited are below the next one to give out.\<close>

definition listening_on :: "'d listener \<Rightarrow> nat \<Rightarrow> bool" where
  "listening_on s c \<longleftrightarrow> isListening s \<and> client s = Some c \<and> handlers_on s c = 1"

definition ops_fresh :: "'d listener \<Rightarrow> bool" where
  "ops_fresh s \<longleftrightarrow> list_all (\<lambda>p. fst p < next_op s) (pending s)"

text \<open>A stand-in for \<^verbatim>\<open>JSON.parse\<close> on two texts, and subscribers that only return.\<close>

definition toy_parse :: "unit parser" where
  "toy_parse str = (if str = ''{}'' then Inr () else Inl (SyntaxError ''Unexpected token''))"

definition quiet :: "unit handlers" where
  "quiet cb d s = (None, s)"

text \<open>The events of a \<^verbatim>\<open>connect()\<close> whose \<open>k\<close>-th awaited operation (client connect,
  the two trigger queries, LISTEN) is the first to fail, on a new listener.\<close>

definition failing_connect :: "nat \<Rightarrow> error \<Rightarrow> 'd event list" where
  "failing_connect k e = Call_connect # map Fulfilled [0..<k] @ [Rejected k e]"

definition successful_connect :: "nat \<Rightarrow> 'd event list" where
  "successful_connect n = [Fulfilled n, Fulfilled (n + 1), Fulfilled (n + 2), Fulfilled (n + 3)]"

section \<open>Properties of the event bus\<close>

lemma wf_new_Map: "wf_registry new_Map"
  by (simp add: wf_registry_def new_Map_def)

lemma wf_on: "wf_registry s \<Longrightarrow> wf_registry (on event cb s)"
proof (cases "listeners s event")
  case None
  assume wf: "wf_registry s"
  have fresh: "\<And>t b. listeners s t = Some b \<Longrightarrow> b < next_addr s"
    using wf by (auto simp: wf_registry_def ran_def)
  have inj: "inj_on ((listeners s)(event \<mapsto> next_addr s)) (insert event (dom (listeners s)))"
    unfolding inj_on_def
  proof (intro ballI impI)
    fix x y
    assume x: "x \<in> insert event (dom (listeners s))"
      and y: "y \<in> insert event (dom (listeners s))"
      and eq: "((listeners s)(event \<mapsto> next_addr s)) x = ((listeners s)(event \<mapsto> next_addr s)) y"
    show "x = y"
    proof (cases "x = event")
      case True
      show ?thesis
      proof (cases "y = event")
        case True
        with \<open>x = event\<close> show ?thesis by simp
      next
        case False
        with y obtain b where "listeners s y = Some b" by auto
        with fresh[OF this] eq True False show ?thesis by auto
      qed
    next
      case False
      with x obtain b where b: "listeners s x = Some b" by auto
      show ?thesis
      proof (cases "y = event")
        case True
        with fresh[OF b] eq False b show ?thesis by auto
      next
        case yf: False
        with y have "y \<in> dom (listeners s)" by simp
        moreover from x False have "x \<in> dom (listeners s)" by simp
        moreover from eq False yf have "listeners s x = listeners s y" by simp
        ultimately show ?thesis using wf by (auto simp: wf_registry_def inj_on_def)
      qed
    qed
  qed
  have "\<forall>a \<in> ran ((listeners s)(event \<mapsto> next_addr s)). a < Suc (next_addr s)"
    using fresh by (auto simp: ran_def split: if_splits) (metis less_Suc_eq)
  with inj None show ?thesis
    by (simp add: wf_registry_def on_def)
next
  case (Some a)
  assume "wf_registry s"
  with Some show ?thesis by (simp add: wf_registry_def on_def)
qed

lemma wf_off: "wf_registry s \<Longrightarrow> wf_registry (off event cb s)"
  by (auto simp: wf_registry_def off_def Let_def split: option.splits)

lemma wf_removeAllListeners: "wf_registry s \<Longrightarrow> wf_registry (removeAllListeners event s)"
proof -
  assume wf: "wf_registry s"
  have sub: "\<And>e. inj_on ((listeners s)(e := None)) (dom ((listeners s)(e := None)))"
    using wf by (auto simp: wf_registry_def inj_on_def dom_def split: if_splits)
  have ran: "\<And>e. \<forall>a \<in> ran ((listeners s)(e := None)). a < next_addr s"
    using wf by (auto simp: wf_registry_def ran_def split: if_splits)
  show ?thesis
    using sub ran by (auto simp: wf_registry_def removeAllListeners_def split: option.splits)
qed

lemma indexOf_from_notin: "x \<notin> set xs \<Longrightarrow> indexOf_from xs x i = - 1"
  by (induction xs arbitrary: i) auto

lemma indexOf_from_in:
  "x \<in> set xs \<Longrightarrow> 0 \<le> i \<Longrightarrow>
     i \<le> indexOf_from xs x i \<and>
     take (nat (indexOf_from xs x i - i)) xs @ drop (Suc (nat (indexOf_from xs x i - i))) xs
       = remove1 x xs"
proof (induction xs arbitrary: i)
  case Nil
  then show ?case by simp
next
  case (Cons y ys)
  show ?case
  proof (cases "y = x")
    case True
    then show ?thesis by simp
  next
    case False
    with Cons.prems have mem: "x \<in> set ys" by simp
    from Cons.prems have i1: "0 \<le> i + 1" by simp
    from Cons.IH[OF mem i1] have
      le: "i + 1 \<le> indexOf_from ys x (i + 1)" and
      eq: "take (nat (indexOf_from ys x (i + 1) - (i + 1))) ys
             @ drop (Suc (nat (indexOf_from ys x (i + 1) - (i + 1)))) ys = remove1 x ys"
      by simp_all
    from le have "nat (indexOf_from ys x (i + 1) - i) = Suc (nat (indexOf_from ys x (i + 1) - (i + 1)))"
      by simp
    with False le eq show ?thesis by simp
  qed
qed

lemma splice1_indexOf:
  "splice1 (indexOf xs x) xs = (if indexOf xs x > - 1 then remove1 x xs else splice1 (- 1) xs)"
proof (cases "x \<in> set xs")
  case True
  from indexOf_from_in[OF True, of 0] show ?thesis
    by (simp add: splice1_def indexOf_def)
next
  case False
  then show ?thesis by (simp add: indexOf_def indexOf_from_notin)
qed

lemma indexOf_found: "indexOf xs x > - 1 \<longleftrightarrow> x \<in> set xs"
proof (cases "x \<in> set xs")
  case True
  from indexOf_from_in[OF True, of 0] show ?thesis using True by (simp add: indexOf_def)
next
  case False
  then show ?thesis by (simp add: indexOf_def indexOf_from_notin)
qed

lemma off_unregistered: "cb \<notin> set (registered s event) \<Longrightarrow> off event cb s = s"
  by (auto simp: off_def registered_def Let_def indexOf_found split: option.splits)

lemma registered_off_same:
  "registered (off event cb s) event = remove1 cb (registered s event)"
proof (cases "listeners s event")
  case None
  then show ?thesis by (simp add: off_def registered_def)
next
  case (Some a)
  show ?thesis
  proof (cases "cb \<in> set (heap s a)")
    case True
    with Some show ?thesis
      by (simp add: off_def registered_def Let_def indexOf_found splice1_indexOf)
  next
    case False
    with Some show ?thesis
      by (simp add: off_def registered_def Let_def indexOf_found remove1_idem)
  qed
qed

lemma registered_off_other:
  assumes "wf_registry s" and "t \<noteq> event"
  shows "registered (off event cb s) t = registered s t"
proof (cases "listeners s event")
  case None
  then show ?thesis by (simp add: off_def)
next
  case (Some a)
  show ?thesis
  proof (cases "listeners s t")
    case None
    with Some show ?thesis by (simp add: off_def registered_def Let_def)
  next
    case (Some b)
    with \<open>listeners s event = Some a\<close> assms have "b \<noteq> a"
      by (auto simp: wf_registry_def inj_on_def dom_def)
    with Some \<open>listeners s event = Some a\<close> show ?thesis
      by (simp add: off_def registered_def Let_def)
  qed
qed

section \<open>Dispatch, unsubscription and the trigger payloads\<close>

lemma forEach_undisturbed:
  assumes quiet: "\<forall>cb \<in> set (heap s a). snd (run cb d s) = s"
  shows "k + n = length (heap s a) \<Longrightarrow>
     forEach run a d k n s = (s, concat (map (delivery run d s) (drop k (heap s a))))"
proof (induction n arbitrary: k)
  case 0
  then show ?case by simp
next
  case (Suc n)
  from Suc.prems have k: "k < length (heap s a)" by simp
  let ?cb = "heap s a ! k"
  from k have "?cb \<in> set (heap s a)" by simp
  with quiet have same: "snd (run ?cb d s) = s" by blast
  then obtain thrown where run: "run ?cb d s = (thrown, s)"
    by (cases "run ?cb d s") auto
  from Suc.prems have "Suc k + n = length (heap s a)" by simp
  from Suc.IH[OF this] have rest:
    "forEach run a d (Suc k) n s = (s, concat (map (delivery run d s) (drop (Suc k) (heap s a))))" .
  have split: "drop k (heap s a) = ?cb # drop (Suc k) (heap s a)"
    using k by (simp add: Cons_nth_drop_Suc)
  have "forEach run a d k (Suc n) s =
      (s, delivery run d s ?cb @ concat (map (delivery run d s) (drop (Suc k) (heap s a))))"
    using k rest run by (simp add: delivery_def)
  with split show ?case by simp
qed

lemma deliveries_append: "deliveries (xs @ ys) = deliveries xs @ deliveries ys"
  by (induction xs rule: deliveries.induct) auto

lemma deliveries_delivery: "deliveries (delivery run d s cb) = [(cb, d)]"
  by (simp add: delivery_def split: option.splits)

lemma deliveries_concat_delivery:
  "deliveries (concat (map (delivery run d s) cbs)) = map (\<lambda>cb. (cb, d)) cbs"
  by (induction cbs) (simp_all add: deliveries_append deliveries_delivery)

text \<open>
  Claim C1, as the code has it. When no callback registered for the event changes the
  registry during the dispatch, \<^verbatim>\<open>emit\<close> calls exactly the callbacks registered for the
  event when it starts, once each and in registration order; a callback that throws is
  logged and the next ones are still called; the registry is left as it was. An event
  without an entry delivers nothing.
\<close>

theorem emit_delivers_in_order:
  assumes "\<forall>cb \<in> set (registered s event). snd (run cb d s) = s"
  shows "emit run event d s = (s, concat (map (delivery run d s) (registered s event)))
       \<and> deliveries (snd (emit run event d s)) = map (\<lambda>cb. (cb, d)) (registered s event)"
proof (cases "listeners s event")
  case None
  then show ?thesis by (simp add: emit_def registered_def)
next
  case (Some a)
  with assms have "\<forall>cb \<in> set (heap s a). snd (run cb d s) = s"
    by (simp add: registered_def)
  from forEach_undisturbed[of s a run d 0 "length (heap s a)"] this Some
  show ?thesis by (simp add: emit_def registered_def deliveries_concat_delivery)
qed

text \<open>The first of two subscribers throws; the second is still called.\<close>

theorem emit_delivers_in_order_witness:
  "emit throwing_handlers ''message_change'' ()
      (on ''message_change'' 1 (on ''message_change'' 0 new_Map))
    = (on ''message_change'' 1 (on ''message_change'' 0 new_Map),
       [Called 0 (), LogErr ''Error in event callback:'' (Error ''boom''), Called 1 ()])"
  using emit_delivers_in_order[of "on ''message_change'' 1 (on ''message_change'' 0 new_Map)"
      "''message_change''" throwing_handlers "()"]
  by (simp add: registered_def on_def new_Map_def throwing_handlers_def delivery_def)

text \<open>
  Claim C1 as stated fails: \<^verbatim>\<open>forEach\<close> walks the live array. With callbacks 0 and 1
  registered, callback 0 calls \<^verbatim>\<open>off\<close> on itself; the array shrinks to one element,
  index 1 is gone, and callback 1, registered at publish time, is never called.
\<close>

theorem emit_skips_after_removal:
  "registered (on ''message_change'' 1 (on ''message_change'' 0 new_Map)) ''message_change'' = [0, 1]
   \<and> snd (emit once_handlers ''message_change'' ()
        (on ''message_change'' 1 (on ''message_change'' 0 new_Map))) = [Called 0 ()]"
  by (simp add: registered_def on_def new_Map_def emit_def once_handlers_def off_def
      indexOf_def splice1_def Let_def)

text \<open>
  Claim C10. \<^verbatim>\<open>off(event, callback)\<close> on a registry built by the class: a callback that
  is not registered for the event (or an event without an entry) leaves the whole
  registry unchanged; otherwise only the first occurrence of the callback leaves the
  event's list; every other event's list, every other callback and the set of entries
  stay as they were.
\<close>

theorem off_frame:
  assumes "wf_registry s"
  shows "(cb \<notin> set (registered s event) \<longrightarrow> off event cb s = s)
       \<and> (\<forall>t. registered (off event cb s) t =
                (if t = event then remove1 cb (registered s event) else registered s t))
       \<and> listeners (off event cb s) = listeners s"
proof (intro conjI allI impI)
  assume "cb \<notin> set (registered s event)"
  then show "off event cb s = s" by (rule off_unregistered)
next
  fix t
  show "registered (off event cb s) t =
          (if t = event then remove1 cb (registered s event) else registered s t)"
    using registered_off_same[of event cb s] registered_off_other[OF assms, of t event cb]
    by simp
next
  show "listeners (off event cb s) = listeners s"
    by (simp add: off_def Let_def split: option.splits)
qed

text \<open>Callback 1 is registered twice for event a; one \<^verbatim>\<open>off\<close> removes one of them.\<close>

theorem off_frame_witness:
  "registered (off ''a'' 1 (on ''a'' 1 (on ''b'' 2 (on ''a'' 1 (on ''a'' 0 new_Map))))) ''a'' = [0, 1]
   \<and> registered (off ''a'' 1 (on ''a'' 1 (on ''b'' 2 (on ''a'' 1 (on ''a'' 0 new_Map))))) ''b'' = [2]
   \<and> off ''b'' 1 (on ''a'' 1 (on ''b'' 2 (on ''a'' 1 (on ''a'' 0 new_Map))))
       = on ''a'' 1 (on ''b'' 2 (on ''a'' 1 (on ''a'' 0 new_Map)))"
proof -
  let ?s = "on ''a'' 1 (on ''b'' 2 (on ''a'' 1 (on ''a'' 0 new_Map)))"
  have wf: "wf_registry ?s"
    by (intro wf_on wf_new_Map)
  have a: "registered ?s ''a'' = [0, 1, 1]" and b: "registered ?s ''b'' = [2]"
    by (simp_all add: registered_def on_def new_Map_def)
  from off_frame[OF wf, of 1 "''a''"] off_frame[OF wf, of 1 "''b''"] a b
  show ?thesis by simp
qed

text \<open>
  Claim C7. For a DELETE the payload holds the operation and table tags and \<^verbatim>\<open>id\<close>,
  \<^verbatim>\<open>group_uuid\<close>, \<^verbatim>\<open>sender_uuid\<close> of the old row, and nothing else: no \<^verbatim>\<open>content\<close> key.
  The function notifies that payload on \<^verbatim>\<open>message_changes\<close>, unless its text is too long
  for \<^verbatim>\<open>pg_notify\<close>.
\<close>

theorem delete_payload_fields:
  assumes "TG_OP td = ''DELETE''" and "OLD td = Some old"
  shows "build_payload td =
           Some [(''operation'', JString ''DELETE''),
                 (''table'', JString (TG_TABLE_NAME td)),
                 (''id'', JNumber (id' old)),
                 (''group_uuid'', JString (group_uuid old)),
                 (''sender_uuid'', JString (sender_uuid old))]
       \<and> map_sum id fst (notify_message_change as_text td) =
           (if 8000 \<le> length (as_text [(''operation'', JString ''DELETE''),
                            (''table'', JString (TG_TABLE_NAME td)),
                            (''id'', JNumber (id' old)),
                            (''group_uuid'', JString (group_uuid old)),
                            (''sender_uuid'', JString (sender_uuid old))])
            then Inl (Error ''payload string too long'')
            else Inr \<lparr>channel = ''message_changes'',
                   payload = Some [(''operation'', JString ''DELETE''),
                            (''table'', JString (TG_TABLE_NAME td)),
                            (''id'', JNumber (id' old)),
                            (''group_uuid'', JString (group_uuid old)),
                            (''sender_uuid'', JString (sender_uuid old))]\<rparr>)
       \<and> map_option (map fst) (build_payload td) =
           Some [''operation'', ''table'', ''id'', ''group_uuid'', ''sender_uuid'']
       \<and> map_option (\<lambda>p. map_of p ''content'') (build_payload td) = Some None"
  using assms by (simp add: notify_message_change_def pg_notify_def build_payload_def col_def)

text \<open>The payload of deleting one row.\<close>

theorem delete_payload_fields_witness:
  "map_sum id fst (notify_message_change plain_text
        \<lparr>TG_OP = ''DELETE'', TG_TABLE_NAME = ''messages'', NEW = None, OLD = Some row_before\<rparr>)
   = Inr \<lparr>channel = ''message_changes'',
          payload = Some [(''operation'', JString ''DELETE''), (''table'', JString ''messages''),
                          (''id'', JNumber 7), (''group_uuid'', JString ''g''),
                          (''sender_uuid'', JString ''u'')]\<rparr>"
  using delete_payload_fields[of
      "\<lparr>TG_OP = ''DELETE'', TG_TABLE_NAME = ''messages'', NEW = None, OLD = Some row_before\<rparr>"
      row_before plain_text]
  by (simp add: row_before_def plain_text_def)

text \<open>
  Claim C6. For an UPDATE the payload holds the tags, the seven columns of the new row
  (\<^verbatim>\<open>file\<close> as null when the column is null) and \<^verbatim>\<open>old_id\<close>, \<^verbatim>\<open>old_content\<close>,
  \<^verbatim>\<open>old_is_deleted\<close> of the old row (the spec's previousId, previousContent,
  previousIsDeleted). The function notifies that payload on \<^verbatim>\<open>message_changes\<close>, unless
  its text is too long for \<^verbatim>\<open>pg_notify\<close>, in which case the UPDATE is aborted and there
  is no event. The payload alone shows a soft delete: \<^verbatim>\<open>old_is_deleted\<close> false and
  \<^verbatim>\<open>is_deleted\<close> true, exactly when the row's flag went from false to true.
\<close>

theorem update_payload_fields:
  assumes "TG_OP td = ''UPDATE''" and "NEW td = Some new" and "OLD td = Some old"
  shows "build_payload td =
           Some [(''operation'', JString ''UPDATE''),
                 (''table'', JString (TG_TABLE_NAME td)),
                 (''id'', JNumber (id' new)),
                 (''group_uuid'', JString (group_uuid new)),
                 (''sender_uuid'', JString (sender_uuid new)),
                 (''content'', JString (content new)),
                 (''file'', case file' new of None \<Rightarrow> JNull | Some name \<Rightarrow> JString name),
                 (''created_date'', JString (created_date new)),
                 (''is_deleted'', JBool (is_deleted new)),
                 (''old_id'', JNumber (id' old)),
                 (''old_content'', JString (content old)),
                 (''old_is_deleted'', JBool (is_deleted old))]
       \<and> notify_message_change as_text td =
           (if 8000 \<le> length (as_text (the (build_payload td)))
            then Inl (Error ''payload string too long'')
            else Inr (\<lparr>channel = ''message_changes'', payload = build_payload td\<rparr>, Some new))
       \<and> ((map_option (\<lambda>p. (map_of p ''old_is_deleted'', map_of p ''is_deleted'')) (build_payload td)
             = Some (Some (JBool False), Some (JBool True)))
          = (\<not> is_deleted old \<and> is_deleted new))"
  using assms
  by (auto simp add: notify_message_change_def pg_notify_def build_payload_def col_def
      nullable_def coalesce_def)

text \<open>The payload of soft-deleting one row that has a file.\<close>

theorem update_payload_fields_witness:
  "notify_message_change plain_text
      \<lparr>TG_OP = ''UPDATE'', TG_TABLE_NAME = ''messages'', NEW = Some row_after, OLD = Some row_before\<rparr>
   = Inr (\<lparr>channel = ''message_changes'',
           payload = Some [(''operation'', JString ''UPDATE''), (''table'', JString ''messages''),
             (''id'', JNumber 7), (''group_uuid'', JString ''g''), (''sender_uuid'', JString ''u''),
             (''content'', JString ''hi''), (''file'', JString ''a.png''),
             (''created_date'', JString ''2024-01-01T00:00:00+00:00''),
             (''is_deleted'', JBool True), (''old_id'', JNumber 7),
             (''old_content'', JString ''hi''), (''old_is_deleted'', JBool False)]\<rparr>,
          Some row_after)"
  using update_payload_fields[of
      "\<lparr>TG_OP = ''UPDATE'', TG_TABLE_NAME = ''messages'', NEW = Some row_after, OLD = Some row_before\<rparr>"
      row_after row_before plain_text]
  by (simp add: row_before_def row_after_def plain_text_def)

section \<open>Installing the trigger\<close>

lemma names_messages_notify_trigger:
  "names_trigger ''messages_notify_trigger'' ''messages'' messages_notify_trigger"
  by (simp add: names_trigger_def messages_notify_trigger_def)

lemma setupTriggers_on_installs:
  assumes "''messages'' \<in> set (tables db)"
  shows "setupTriggers_on as_text db = (None, installed as_text db)"
  using assms
  by (simp add: setupTriggers_on_def query_def createFunctionQuery_def createTriggerQuery_def
      installed_def list_ex_iff messages_notify_trigger_def names_trigger_def)

lemma installed_idem: "installed as_text (installed as_text db) = installed as_text db"
  by (simp add: installed_def names_messages_notify_trigger fun_upd_idem_iff)

lemma tables_installed: "tables (installed as_text db) = tables db"
  by (simp add: installed_def)

lemma setupTriggers_times_installs:
  assumes "''messages'' \<in> set (tables db)"
  shows "setupTriggers_times as_text (Suc n) db = ([], installed as_text db)"
proof (induction n)
  case 0
  show ?case using setupTriggers_on_installs[OF assms] by simp
next
  case (Suc n)
  from assms have "''messages'' \<in> set (tables (installed as_text db))"
    by (simp add: tables_installed)
  from setupTriggers_on_installs[OF this, of as_text]
  have "setupTriggers_on as_text (installed as_text db) = (None, installed as_text db)"
    by (simp add: installed_idem)
  with Suc show ?case
    by (simp del: setupTriggers_times.simps add: setupTriggers_times.simps(2)[of as_text "Suc n"])
qed

lemma one_trigger_installed:
  "filter (names_trigger ''messages_notify_trigger'' ''messages'') (triggers (installed as_text db))
     = [messages_notify_trigger]"
  by (simp add: installed_def names_messages_notify_trigger)

lemma installed_trigger_fires_once:
  assumes "op \<in> {''INSERT'', ''UPDATE'', ''DELETE''}"
  shows "filter (names_trigger ''messages_notify_trigger'' ''messages'')
           (filter (fires (row_data op ''messages'' r)) (triggers (installed as_text db)))
         = [messages_notify_trigger]"
proof -
  have f: "fires (row_data op ''messages'' r) messages_notify_trigger"
    using assms by (auto simp: fires_def messages_notify_trigger_def row_data_def)
  have "filter (names_trigger ''messages_notify_trigger'' ''messages'')
           (filter (fires (row_data op ''messages'' r)) (triggers (installed as_text db)))
      = filter (fires (row_data op ''messages'' r))
          (filter (names_trigger ''messages_notify_trigger'' ''messages'')
            (triggers (installed as_text db)))"
    by (simp add: conj_commute)
  with f show ?thesis by (simp add: one_trigger_installed)
qed

lemma row_notifies_installed:
  assumes others: "\<forall>t \<in> set (triggers db). tgrelation t = ''messages'' \<longrightarrow> tgname t = ''messages_notify_trigger''"
    and op: "op \<in> {''INSERT'', ''UPDATE'', ''DELETE''}"
  shows "row_notifies (installed as_text db) (row_data op ''messages'' r) =
           (if fits as_text (row_data op ''messages'' r)
            then Inr [\<lparr>channel = ''message_changes'',
                       payload = build_payload (row_data op ''messages'' r)\<rparr>]
            else Inl (Error ''payload string too long''))"
proof -
  let ?td = "row_data op ''messages'' r"
  have "filter (fires ?td) (filter (\<lambda>t. \<not> names_trigger ''messages_notify_trigger'' ''messages'' t) (triggers db)) = []"
    using others by (auto simp: filter_empty_conv fires_def names_trigger_def row_data_def)
  moreover have "fires ?td messages_notify_trigger"
    using op by (auto simp: fires_def messages_notify_trigger_def row_data_def)
  ultimately have "row_notifies (installed as_text db) ?td
      = run_triggers (installed as_text db) ?td [messages_notify_trigger]"
    by (simp add: row_notifies_def installed_def)
  also have "\<dots> = (if fits as_text ?td
            then Inr [\<lparr>channel = ''message_changes'', payload = build_payload ?td\<rparr>]
            else Inl (Error ''payload string too long''))"
    by (simp add: installed_def messages_notify_trigger_def notify_message_change_def
        pg_notify_def fits_def split: option.splits)
  finally show ?thesis .
qed

lemma statement_notifies_installed:
  assumes "\<forall>t \<in> set (triggers db). tgrelation t = ''messages'' \<longrightarrow> tgname t = ''messages_notify_trigger''"
    and "op \<in> {''INSERT'', ''UPDATE'', ''DELETE''}"
  shows "statement_notifies (installed as_text db) op ''messages'' rows =
           (if list_all (\<lambda>r. fits as_text (row_data op ''messages'' r)) rows
            then Inr (map (\<lambda>r. \<lparr>channel = ''message_changes'',
                                 payload = build_payload (row_data op ''messages'' r)\<rparr>) rows)
            else Inl (Error ''payload string too long''))"
proof (induction rows)
  case Nil
  show ?case by simp
next
  case (Cons r rows)
  show ?case
    using Cons row_notifies_installed[OF assms, of as_text r] by simp
qed

text \<open>
  Claim C8, as the code has it. On a database that has the \<^verbatim>\<open>messages\<close> table, any
  number of runs of \<^verbatim>\<open>setupTriggers\<close> in a row throws nothing and leaves the database a
  single run leaves: the function \<^verbatim>\<open>notify_message_change\<close> defined once under its name,
  and exactly one trigger named \<^verbatim>\<open>messages_notify_trigger\<close> on \<^verbatim>\<open>messages\<close>. For every row
  an INSERT, UPDATE or DELETE changes, that trigger runs exactly once, however often
  the installer ran. When the table has no trigger of another name, a statement makes
  one \<^verbatim>\<open>pg_notify\<close> call for every row it changes, with the payload built for that row
  (or is aborted, when a payload is too long); when it commits alone, listeners receive
  those notifications, equal ones once.
\<close>

theorem setupTriggers_idempotent:
  assumes "''messages'' \<in> set (tables db)"
  shows "fst (setupTriggers_times as_text (Suc n) db) = []
       \<and> snd (setupTriggers_times as_text (Suc n) db) = snd (setupTriggers_times as_text 1 db)
       \<and> filter (names_trigger ''messages_notify_trigger'' ''messages'')
           (triggers (snd (setupTriggers_times as_text (Suc n) db))) = [messages_notify_trigger]
       \<and> procs (snd (setupTriggers_times as_text (Suc n) db)) ''notify_message_change''
           = Some (notify_message_change as_text)
       \<and> dom (procs (snd (setupTriggers_times as_text (Suc n) db)))
           = insert ''notify_message_change'' (dom (procs db))
       \<and> (op \<in> {''INSERT'', ''UPDATE'', ''DELETE''} \<longrightarrow>
            filter (names_trigger ''messages_notify_trigger'' ''messages'')
              (filter (fires (row_data op ''messages'' r))
                (triggers (snd (setupTriggers_times as_text (Suc n) db))))
            = [messages_notify_trigger])
       \<and> ((\<forall>t \<in> set (triggers db).
              tgrelation t = ''messages'' \<longrightarrow> tgname t = ''messages_notify_trigger'')
            \<and> op \<in> {''INSERT'', ''UPDATE'', ''DELETE''} \<longrightarrow>
            statement_notifies (snd (setupTriggers_times as_text (Suc n) db)) op ''messages'' rows
              = (if list_all (\<lambda>r. fits as_text (row_data op ''messages'' r)) rows
                 then Inr (map (\<lambda>r. \<lparr>channel = ''message_changes'',
                                      payload = build_payload (row_data op ''messages'' r)\<rparr>) rows)
                 else Inl (Error ''payload string too long''))
          \<and> commit (snd (setupTriggers_times as_text (Suc n) db)) [(op, ''messages'', rows)]
              = (if list_all (\<lambda>r. fits as_text (row_data op ''messages'' r)) rows
                 then Inr (queue [] (map (\<lambda>r. \<lparr>channel = ''message_changes'',
                                      payload = build_payload (row_data op ''messages'' r)\<rparr>) rows))
                 else Inl (Error ''payload string too long'')))"
proof -
  have n: "setupTriggers_times as_text (Suc n) db = ([], installed as_text db)"
    by (rule setupTriggers_times_installs[OF assms])
  have one: "setupTriggers_times as_text 1 db = ([], installed as_text db)"
    using setupTriggers_times_installs[OF assms, of as_text 0] by simp
  have inst: "procs (installed as_text db) ''notify_message_change''
                = Some (notify_message_change as_text)"
    "dom (procs (installed as_text db)) = insert ''notify_message_change'' (dom (procs db))"
    by (simp_all add: installed_def)
  have once: "op \<in> {''INSERT'', ''UPDATE'', ''DELETE''} \<longrightarrow>
            filter (names_trigger ''messages_notify_trigger'' ''messages'')
              (filter (fires (row_data op ''messages'' r)) (triggers (installed as_text db)))
            = [messages_notify_trigger]"
    using installed_trigger_fires_once[of op r as_text db] by blast
  have rows: "(\<forall>t \<in> set (triggers db).
              tgrelation t = ''messages'' \<longrightarrow> tgname t = ''messages_notify_trigger'')
            \<and> op \<in> {''INSERT'', ''UPDATE'', ''DELETE''} \<longrightarrow>
            statement_notifies (installed as_text db) op ''messages'' rows
              = (if list_all (\<lambda>r. fits as_text (row_data op ''messages'' r)) rows
                 then Inr (map (\<lambda>r. \<lparr>channel = ''message_changes'',
                                      payload = build_payload (row_data op ''messages'' r)\<rparr>) rows)
                 else Inl (Error ''payload string too long''))"
    using statement_notifies_installed[of db op as_text rows] by blast
  have committed: "(\<forall>t \<in> set (triggers db).
              tgrelation t = ''messages'' \<longrightarrow> tgname t = ''messages_notify_trigger'')
            \<and> op \<in> {''INSERT'', ''UPDATE'', ''DELETE''} \<longrightarrow>
            commit (installed as_text db) [(op, ''messages'', rows)]
              = (if list_all (\<lambda>r. fits as_text (row_data op ''messages'' r)) rows
                 then Inr (queue [] (map (\<lambda>r. \<lparr>channel = ''message_changes'',
                                      payload = build_payload (row_data op ''messages'' r)\<rparr>) rows))
                 else Inl (Error ''payload string too long''))"
    using statement_notifies_installed[of db op as_text rows]
    by (auto simp: commit_def)
  show ?thesis
    unfolding n one fst_conv snd_conv
    using one_trigger_installed[of as_text db] inst once rows committed
    by blast
qed

text \<open>Three runs on a database with the table and nothing installed, then the
  deletion of one row.\<close>

theorem setupTriggers_idempotent_witness:
  "setupTriggers_times plain_text 3 empty_database
     = ([], \<lparr>tables = [''messages''],
            procs = [''notify_message_change'' \<mapsto> notify_message_change plain_text],
            triggers = [messages_notify_trigger]\<rparr>)
   \<and> commit (snd (setupTriggers_times plain_text 3 empty_database))
        [(''DELETE'', ''messages'', [(Some row_before, None)])]
     = Inr [\<lparr>channel = ''message_changes'',
             payload = Some [(''operation'', JString ''DELETE''), (''table'', JString ''messages''),
                             (''id'', JNumber 7), (''group_uuid'', JString ''g''),
                             (''sender_uuid'', JString ''u'')]\<rparr>]"
proof -
  have t: "''messages'' \<in> set (tables empty_database)"
    by (simp add: empty_database_def)
  have three: "(3::nat) = Suc 2" by simp
  have one: "setupTriggers_times plain_text 1 empty_database
     = ([], \<lparr>tables = [''messages''],
            procs = [''notify_message_change'' \<mapsto> notify_message_change plain_text],
            triggers = [messages_notify_trigger]\<rparr>)"
    using setupTriggers_on_installs[OF t] by (simp add: installed_def empty_database_def)
  from setupTriggers_idempotent[OF t, of plain_text 2 "''DELETE''" "(Some row_before, None)"
      "[(Some row_before, None)]"]
  show ?thesis
    unfolding three one
    by (cases "setupTriggers_times plain_text (Suc 2) empty_database")
       (simp add: empty_database_def fits_def build_payload_def row_data_def col_def
          row_before_def plain_text_def)
qed

text \<open>
  Claim C8 as stated fails in its count per statement: the trigger is declared FOR EACH
  ROW. After the installer ran twice, one committed DELETE that removes two rows
  produces two notifications, one for each row, and a statement that changes no row
  produces none.
\<close>

theorem statement_of_two_rows_notifies_twice:
  "commit (snd (setupTriggers_times plain_text 2 empty_database))
     [(''DELETE'', ''messages'', [(Some row_before, None), (Some row_other, None)])]
     = Inr [\<lparr>channel = ''message_changes'',
             payload = Some [(''operation'', JString ''DELETE''), (''table'', JString ''messages''),
                             (''id'', JNumber 7), (''group_uuid'', JString ''g''),
                             (''sender_uuid'', JString ''u'')]\<rparr>,
            \<lparr>channel = ''message_changes'',
             payload = Some [(''operation'', JString ''DELETE''), (''table'', JString ''messages''),
                             (''id'', JNumber 8), (''group_uuid'', JString ''g''),
                             (''sender_uuid'', JString ''u'')]\<rparr>]
   \<and> commit (snd (setupTriggers_times plain_text 2 empty_database))
        [(''UPDATE'', ''messages'', [])] = Inr []"
  by (simp add: eval_nat_numeral setupTriggers_on_def query_def createFunctionQuery_def
      createTriggerQuery_def empty_database_def messages_notify_trigger_def names_trigger_def
      commit_def row_notifies_def fires_def row_data_def
      notify_message_change_def pg_notify_def build_payload_def col_def row_before_def
      row_other_def plain_text_def)

section \<open>The connection lifecycle: connecting\<close>

lemmas lifecycle_defs =
  steps_def settle_def connect_def await_def say_def constructor_def
  setupTriggers_def startListening_def connect_throws_def connect_returns_def
  setupTriggers_throws_def startListening_throws_def reconnect_catch_def

lemma failing_connect_cases:
  "k \<le> 3 \<Longrightarrow> k = 0 \<or> k = Suc 0 \<or> k = Suc (Suc 0) \<or> k = Suc (Suc (Suc 0))"
  by arith

lemma first_connect_fails_at_0:
  "steps parse run (failing_connect 0 e) (constructor\<lparr>bus := b\<rparr>) =
     \<lparr>client = Some 0, isListening = False, bus = b, next_client = 1,
      handlers_on = (\<lambda>_. 0), pending = [], next_op = 1,
      trace = [Request 0 (ClientConnect 0),
               LogErr ''Failed to connect PostgreSQL listener:'' e,
               Settled Api_connect (Some e)]\<rparr>"
  by (simp add: failing_connect_def lifecycle_defs)

lemma first_connect_fails_at_1:
  "steps parse run (failing_connect (Suc 0) e) (constructor\<lparr>bus := b\<rparr>) =
     \<lparr>client = Some 0, isListening = False, bus = b, next_client = 1,
      handlers_on = (\<lambda>_. 0), pending = [], next_op = 2,
      trace = [Request 0 (ClientConnect 0),
               Log ''PostgreSQL listener connected successfully'',
               Request 1 (ClientQuery 0 Sql_createFunctionQuery),
               LogErr ''Failed to set up triggers:'' e,
               LogErr ''Failed to connect PostgreSQL listener:'' e,
               Settled Api_connect (Some e)]\<rparr>"
  by (simp add: failing_connect_def lifecycle_defs)

lemma first_connect_fails_at_2:
  "steps parse run (failing_connect (Suc (Suc 0)) e) (constructor\<lparr>bus := b\<rparr>) =
     \<lparr>client = Some 0, isListening = False, bus = b, next_client = 1,
      handlers_on = (\<lambda>_. 0), pending = [], next_op = 3,
      trace = [Request 0 (ClientConnect 0),
               Log ''PostgreSQL listener connected successfully'',
               Request 1 (ClientQuery 0 Sql_createFunctionQuery),
               Request 2 (ClientQuery 0 Sql_createTriggerQuery),
               LogErr ''Failed to set up triggers:'' e,
               LogErr ''Failed to connect PostgreSQL listener:'' e,
               Settled Api_connect (Some e)]\<rparr>"
  by (simp add: failing_connect_def lifecycle_defs)

lemma first_connect_fails_at_3:
  "steps parse run (failing_connect (Suc (Suc (Suc 0))) e) (constructor\<lparr>bus := b\<rparr>) =
     \<lparr>client = Some 0, isListening = False, bus = b, next_client = 1,
      handlers_on = (\<lambda>_. 0), pending = [], next_op = 4,
      trace = [Request 0 (ClientConnect 0),
               Log ''PostgreSQL listener connected successfully'',
               Request 1 (ClientQuery 0 Sql_createFunctionQuery),
               Request 2 (ClientQuery 0 Sql_createTriggerQuery),
               Log ''PostgreSQL triggers set up successfully'',
               Request 3 (ClientQuery 0 (LISTEN ''message_changes'')),
               LogErr ''Failed to start listening:'' e,
               LogErr ''Failed to connect PostgreSQL listener:'' e,
               Settled Api_connect (Some e)]\<rparr>"
  by (simp add: failing_connect_def lifecycle_defs)

text \<open>
  Claim C9. On a newly constructed listener (with any subscriptions), when the client
  connect, one of the two trigger queries or LISTEN is the first operation of
  \<^verbatim>\<open>connect()\<close> to fail, the promise of \<^verbatim>\<open>connect()\<close> is rejected with that very error;
  the listener has started nothing else: no timer, no operation left awaited, no handler
  attached to the client that could call \<^verbatim>\<open>reconnect()\<close>; and \<^verbatim>\<open>isListening\<close> is false.
\<close>

theorem first_connect_failure_propagates:
  assumes "k \<le> 3"
  shows "settled (trace (steps parse run (failing_connect k e) (constructor\<lparr>bus := b\<rparr>)))
           = [(Api_connect, Some e)]
       \<and> requests (trace (steps parse run (failing_connect k e) (constructor\<lparr>bus := b\<rparr>)))
           = take (Suc k) [ClientConnect 0, ClientQuery 0 Sql_createFunctionQuery,
                ClientQuery 0 Sql_createTriggerQuery, ClientQuery 0 (LISTEN ''message_changes'')]
       \<and> pending (steps parse run (failing_connect k e) (constructor\<lparr>bus := b\<rparr>)) = []
       \<and> \<not> isListening (steps parse run (failing_connect k e) (constructor\<lparr>bus := b\<rparr>))
       \<and> handlers_on (steps parse run (failing_connect k e) (constructor\<lparr>bus := b\<rparr>)) = (\<lambda>_. 0)
       \<and> bus (steps parse run (failing_connect k e) (constructor\<lparr>bus := b\<rparr>)) = b"
  using failing_connect_cases[OF assms]
  by (elim disjE)
     (simp_all add: first_connect_fails_at_0 first_connect_fails_at_1
        first_connect_fails_at_2 first_connect_fails_at_3)

text \<open>The second trigger query is refused.\<close>

theorem first_connect_failure_propagates_witness:
  "settled (trace (steps toy_parse quiet (failing_connect 2 (Error ''permission denied''))
      (constructor\<lparr>bus := new_Map\<rparr>))) = [(Api_connect, Some (Error ''permission denied''))]
   \<and> pending (steps toy_parse quiet (failing_connect 2 (Error ''permission denied''))
      (constructor\<lparr>bus := new_Map\<rparr>)) = []"
  using first_connect_failure_propagates[of 2 toy_parse quiet "Error ''permission denied''" new_Map]
  by simp

section \<open>The connection lifecycle: notifications and the probe\<close>

lemma lookup_new_op:
  "ops_fresh s \<Longrightarrow> next_op s \<le> m \<Longrightarrow> map_of (pending s @ [(m, k)]) m = Some k"
proof -
  assume f: "ops_fresh s" and le: "next_op s \<le> m"
  have "m \<notin> fst ` set (pending s)"
    using f le by (auto simp: ops_fresh_def list_all_iff)
  then have "map_of (pending s) m = None"
    by (simp add: map_of_eq_None_iff)
  then show ?thesis by (simp add: map_add_def)
qed

lemma drop_new_op:
  "ops_fresh s \<Longrightarrow> next_op s \<le> m \<Longrightarrow> filter (\<lambda>p. fst p \<noteq> m) (pending s) = pending s"
proof -
  assume f: "ops_fresh s" and le: "next_op s \<le> m"
  have "\<forall>p \<in> set (pending s). fst p \<noteq> m"
    using f le by (auto simp: ops_fresh_def list_all_iff)
  then show ?thesis by simp
qed

lemma requests_append: "requests (xs @ ys) = requests xs @ requests ys"
  by (induction xs rule: requests.induct) auto

lemma settled_append: "settled (xs @ ys) = settled xs @ settled ys"
  by (induction xs rule: settled.induct) auto

lemmas handler_defs =
  handleNotification_def on_error_def on_end_def reconnect_def disconnect_def
  disconnect_catch_def testNotification_def testNotification_catch_def

text \<open>
  Claim C5. When \<^verbatim>\<open>JSON.parse\<close> throws on the payload of a notification,
  \<^verbatim>\<open>handleNotification\<close> returns normally and only adds a line to the log: the client,
  \<^verbatim>\<open>isListening\<close>, the subscriptions and the awaited operations are what they were, and
  no request (no close, no reconnect) is made. The same holds of the
  \<^verbatim>\<open>notification\<close> handler of a listening client. A later frame that parses is then
  published by \<^verbatim>\<open>emit\<close> on the unchanged registry.
\<close>

theorem malformed_payload_dropped:
  assumes "parse p = Inl e"
  shows "handleNotification parse run p s =
           s\<lparr>trace := trace s @ [LogErr ''Failed to parse notification payload:'' e]\<rparr>
       \<and> (handlers_on s c = 1 \<longrightarrow>
            step parse run (Client_notification c p) s =
              s\<lparr>trace := trace s @ [LogErr ''Failed to parse notification payload:'' e]\<rparr>)
       \<and> (parse p' = Inr d \<longrightarrow>
            handleNotification parse run p' (handleNotification parse run p s) =
              s\<lparr>bus := fst (emit run ''message_change'' d (bus s)),
                trace := trace s @ [LogErr ''Failed to parse notification payload:'' e,
                           LogData ''Received notification:'' d]
                         @ snd (emit run ''message_change'' d (bus s))\<rparr>)"
  using assms by (simp add: handleNotification_def say_def split: prod.splits)

text \<open>A frame that is not JSON, then one that is, with one subscriber.\<close>

theorem malformed_payload_dropped_witness:
  "handleNotification toy_parse quiet ''not json''
      (constructor\<lparr>bus := on ''message_change'' 5 new_Map, isListening := True\<rparr>)
    = constructor\<lparr>bus := on ''message_change'' 5 new_Map, isListening := True,
        trace := [LogErr ''Failed to parse notification payload:'' (SyntaxError ''Unexpected token'')]\<rparr>
   \<and> trace (handleNotification toy_parse quiet ''{}''
        (handleNotification toy_parse quiet ''not json''
          (constructor\<lparr>bus := on ''message_change'' 5 new_Map, isListening := True\<rparr>)))
    = [LogErr ''Failed to parse notification payload:'' (SyntaxError ''Unexpected token''),
       LogData ''Received notification:'' (), Called 5 ()]"
proof -
  have bad: "toy_parse ''not json'' = Inl (SyntaxError ''Unexpected token'')"
    by (simp add: toy_parse_def)
  have good: "toy_parse ''{}'' = Inr ()"
    by (simp add: toy_parse_def)
  have e: "emit quiet ''message_change'' () (on ''message_change'' 5 new_Map)
      = (on ''message_change'' 5 new_Map, [Called 5 ()])"
    by (simp add: emit_def on_def new_Map_def quiet_def)
  from malformed_payload_dropped[where parse = toy_parse and p = "''not json''" and run = quiet
      and s = "constructor\<lparr>bus := on ''message_change'' 5 new_Map, isListening := True\<rparr>"
      and c = 0 and p' = "''{}''" and d = "()", OF bad] good e
  show ?thesis by (simp add: constructor_def handleNotification_def say_def)
qed

text \<open>
  Claim C4, as the code has it. \<^verbatim>\<open>testNotification()\<close> never looks at \<^verbatim>\<open>isListening\<close>.
  Without a client object it logs the error of reading \<^verbatim>\<open>this.client.query\<close> and
  returns normally, having sent nothing. With a client object, in any state, it sends
  the NOTIFY with the TEST payload on it; when that query is fulfilled it logs success,
  when it is rejected it logs the error, and in both cases the promise of
  \<^verbatim>\<open>testNotification()\<close> is fulfilled: no error reaches the caller.
\<close>

theorem testNotification_ignores_state:
  "(client s = None \<longrightarrow>
      step parse run Call_testNotification s =
        s\<lparr>trace := trace s @ [LogErr ''Failed to send test notification:'' null_client,
                              Settled Api_testNotification None]\<rparr>)
   \<and> (client s = Some c \<and> ops_fresh s \<longrightarrow>
        step parse run Call_testNotification s =
          s\<lparr>pending := pending s @ [(next_op s, Await_pg_notify)],
            next_op := Suc (next_op s),
            trace := trace s @ [Request (next_op s)
              (ClientQuery c (SELECT_pg_notify ''message_changes'' test_payload))]\<rparr>
      \<and> steps parse run [Call_testNotification, Fulfilled (next_op s)] s =
          s\<lparr>next_op := Suc (next_op s),
            trace := trace s @ [Request (next_op s)
                (ClientQuery c (SELECT_pg_notify ''message_changes'' test_payload)),
              Log ''Test notification sent'', Settled Api_testNotification None]\<rparr>
      \<and> steps parse run [Call_testNotification, Rejected (next_op s) e] s =
          s\<lparr>next_op := Suc (next_op s),
            trace := trace s @ [Request (next_op s)
                (ClientQuery c (SELECT_pg_notify ''message_changes'' test_payload)),
              LogErr ''Failed to send test notification:'' e,
              Settled Api_testNotification None]\<rparr>)"
  by (simp add: steps_def settle_def await_def say_def handler_defs lookup_new_op drop_new_op
      del: map_of_append)

text \<open>The probe on a listening listener.\<close>

theorem testNotification_ignores_state_witness:
  "trace (steps toy_parse quiet
      (Call_connect # successful_connect 0 @ [Call_testNotification, Fulfilled 4]) constructor)
   = trace (steps toy_parse quiet (Call_connect # successful_connect 0) constructor)
     @ [Request 4 (ClientQuery 0 (SELECT_pg_notify ''message_changes'' test_payload)),
        Log ''Test notification sent'', Settled Api_testNotification None]"
proof -
  let ?s = "steps toy_parse quiet (Call_connect # successful_connect 0) constructor"
  have s: "client ?s = Some 0 \<and> ops_fresh ?s" and n: "next_op ?s = 4"
    by (simp_all add: successful_connect_def lifecycle_defs ops_fresh_def)
  have "steps toy_parse quiet
      (Call_connect # successful_connect 0 @ [Call_testNotification, Fulfilled 4]) constructor
    = steps toy_parse quiet [Call_testNotification, Fulfilled 4] ?s"
    by (simp add: steps_def)
  with testNotification_ignores_state[of ?s toy_parse quiet 0 "Error ''x''"] s n
  show ?thesis by simp
qed

text \<open>
  Claim C4 as stated fails in both directions. On a new listener (Disconnected) the
  probe does not fail: its promise is fulfilled, with the error only logged. After a
  \<^verbatim>\<open>connect()\<close> whose LISTEN was rejected the listener is not listening, and the probe
  sends its NOTIFY and reports success.
\<close>

theorem testNotification_when_not_listening:
  "trace (steps toy_parse quiet [Call_testNotification] constructor)
     = [LogErr ''Failed to send test notification:'' (TypeError ''Cannot read properties of null''),
        Settled Api_testNotification None]
   \<and> isListening (steps toy_parse quiet
        (failing_connect 3 (Error ''denied'') @ [Call_testNotification, Fulfilled 4]) constructor)
       = False
   \<and> drop 9 (trace (steps toy_parse quiet
        (failing_connect 3 (Error ''denied'') @ [Call_testNotification, Fulfilled 4]) constructor))
     = [Request 4 (ClientQuery 0 (SELECT_pg_notify ''message_changes'' test_payload)),
        Log ''Test notification sent'', Settled Api_testNotification None]"
  by (simp add: failing_connect_def eval_nat_numeral lifecycle_defs handler_defs null_client_def)

section \<open>The connection lifecycle: losing the connection and disconnecting\<close>

lemma steps_append: "steps parse run (xs @ ys) s = steps parse run ys (steps parse run xs s)"
  by (simp add: steps_def)

lemma rejections_append: "rejections (xs @ ys) = rejections xs @ rejections ys"
  by (induction xs rule: rejections.induct) auto

lemma deliveries_LogErr: "deliveries (map (LogErr m) errs) = []"
  by (induction errs) auto

lemma settled_LogErr: "settled (map (LogErr m) errs) = []"
  by (induction errs) auto

lemma rejections_LogErr: "rejections (map (LogErr m) errs) = []"
  by (induction errs) auto

lemma requests_LogErr: "requests (map (LogErr m) errs) = []"
  by (induction errs) auto

text \<open>While \<^verbatim>\<open>isListening\<close> is true, every \<^verbatim>\<open>error\<close> callback returns at the guard of
  \<^verbatim>\<open>reconnect()\<close>: the errors are logged and nothing else happens.\<close>

lemma errors_while_listening:
  "isListening s \<Longrightarrow> handlers_on s c = Suc 0 \<Longrightarrow>
     steps parse run (map (Client_error c) errs) s =
       s\<lparr>trace := trace s @ map (LogErr ''PostgreSQL listener error:'') errs\<rparr>"
proof (induction errs arbitrary: s)
  case Nil
  show ?case by (simp add: steps_def)
next
  case (Cons e errs)
  let ?s1 = "s\<lparr>trace := trace s @ [LogErr ''PostgreSQL listener error:'' e]\<rparr>"
  have one: "step parse run (Client_error c e) s = ?s1"
    using Cons.prems by (simp add: on_error_def reconnect_def say_def)
  have "steps parse run (map (Client_error c) (e # errs)) s
      = steps parse run (map (Client_error c) errs) ?s1"
    using one by (simp add: steps_def)
  also have "\<dots> = ?s1\<lparr>trace := trace ?s1 @ map (LogErr ''PostgreSQL listener error:'') errs\<rparr>"
    using Cons.prems by (intro Cons.IH) simp_all
  finally show ?case by simp
qed

text \<open>The scheduling of the attempt that \<^verbatim>\<open>end\<close> starts, on a listening listener.\<close>

lemma end_while_listening:
  assumes "listening_on s c" and "ops_fresh s"
  shows "step parse run (Client_end c) s =
           s\<lparr>isListening := False,
             pending := pending s @ [(next_op s, Await_reconnect_end)],
             next_op := Suc (next_op s),
             trace := trace s @ [Log ''PostgreSQL listener connection ended'',
               Log ''Attempting to reconnect PostgreSQL listener...'',
               Request (next_op s) (ClientEnd c)]\<rparr>"
    and "steps parse run
           ([Client_end c, Fulfilled (next_op s), Fulfilled (Suc (next_op s))]
             @ successful_connect (next_op s + 2)) s =
           s\<lparr>client := Some (next_client s),
             isListening := True,
             next_client := Suc (next_client s),
             handlers_on := (handlers_on s)(next_client s := Suc (handlers_on s (next_client s))),
             next_op := next_op s + 6,
             trace := trace s @ [Log ''PostgreSQL listener connection ended'',
               Log ''Attempting to reconnect PostgreSQL listener...'',
               Request (next_op s) (ClientEnd c),
               Request (next_op s + 1) (SetTimeout 5000),
               Request (next_op s + 2) (ClientConnect (next_client s)),
               Log ''PostgreSQL listener connected successfully'',
               Request (next_op s + 3) (ClientQuery (next_client s) Sql_createFunctionQuery),
               Request (next_op s + 4) (ClientQuery (next_client s) Sql_createTriggerQuery),
               Log ''PostgreSQL triggers set up successfully'',
               Request (next_op s + 5) (ClientQuery (next_client s) (LISTEN ''message_changes'')),
               Log ''Started listening to message_changes channel'']\<rparr>"
    and "steps parse run [Client_end c, Rejected (next_op s) e, Fulfilled (Suc (next_op s))] s =
           s\<lparr>isListening := False,
             pending := pending s @ [(next_op s + 2, Await_reconnect_end)],
             next_op := next_op s + 3,
             trace := trace s @ [Log ''PostgreSQL listener connection ended'',
               Log ''Attempting to reconnect PostgreSQL listener...'',
               Request (next_op s) (ClientEnd c),
               LogErr ''Reconnection failed:'' e,
               Request (next_op s + 1) (SetTimeout 10000),
               Log ''Attempting to reconnect PostgreSQL listener...'',
               Request (next_op s + 2) (ClientEnd c)]\<rparr>"
    and "steps parse run
           [Client_end c, Fulfilled (next_op s), Fulfilled (Suc (next_op s)),
            Rejected (next_op s + 2) e] s =
           s\<lparr>client := Some (next_client s),
             isListening := False,
             next_client := Suc (next_client s),
             pending := pending s @ [(next_op s + 3, Retry_timer)],
             next_op := next_op s + 4,
             trace := trace s @ [Log ''PostgreSQL listener connection ended'',
               Log ''Attempting to reconnect PostgreSQL listener...'',
               Request (next_op s) (ClientEnd c),
               Request (next_op s + 1) (SetTimeout 5000),
               Request (next_op s + 2) (ClientConnect (next_client s)),
               LogErr ''Failed to connect PostgreSQL listener:'' e,
               LogErr ''Reconnection failed:'' e,
               Request (next_op s + 3) (SetTimeout 10000)]\<rparr>"
proof -
  from assms(1) have l: "isListening s" "client s = Some c" "handlers_on s c = Suc 0"
    by (simp_all add: listening_on_def)
  note fresh = assms(2)
  note defs = lifecycle_defs handler_defs lookup_new_op drop_new_op
  let ?n = "next_op s"
  let ?c1 = "next_client s"
  let ?t1 = "trace s @ [Log ''PostgreSQL listener connection ended'',
               Log ''Attempting to reconnect PostgreSQL listener...'',
               Request ?n (ClientEnd c)]"
  let ?S1 = "s\<lparr>isListening := False,
             pending := pending s @ [(?n, Await_reconnect_end)],
             next_op := Suc ?n, trace := ?t1\<rparr>"
  have s1: "step parse run (Client_end c) s = ?S1"
    using l by (simp add: on_end_def reconnect_def say_def await_def)
  then show "step parse run (Client_end c) s =
           s\<lparr>isListening := False,
             pending := pending s @ [(next_op s, Await_reconnect_end)],
             next_op := Suc (next_op s),
             trace := trace s @ [Log ''PostgreSQL listener connection ended'',
               Log ''Attempting to reconnect PostgreSQL listener...'',
               Request (next_op s) (ClientEnd c)]\<rparr>" .
  let ?S2 = "s\<lparr>isListening := False,
             pending := pending s @ [(Suc ?n, Await_reconnect_delay)],
             next_op := ?n + 2, trace := ?t1 @ [Request (?n + 1) (SetTimeout 5000)]\<rparr>"
  have s2: "step parse run (Fulfilled ?n) ?S1 = ?S2"
    using l fresh by (simp add: defs del: map_of_append)
  let ?S3 = "s\<lparr>client := Some ?c1, isListening := False, next_client := Suc ?c1,
             pending := pending s @ [(?n + 2, Await_client_connect Caller_reconnect)],
             next_op := ?n + 3,
             trace := ?t1 @ [Request (?n + 1) (SetTimeout 5000),
                             Request (?n + 2) (ClientConnect ?c1)]\<rparr>"
  have s3: "step parse run (Fulfilled (Suc ?n)) ?S2 = ?S3"
    using l fresh by (simp add: defs del: map_of_append)
  let ?S4 = "s\<lparr>client := Some ?c1, isListening := False, next_client := Suc ?c1,
             pending := pending s @ [(?n + 3, Await_createFunctionQuery Caller_reconnect)],
             next_op := ?n + 4,
             trace := ?t1 @ [Request (?n + 1) (SetTimeout 5000),
                             Request (?n + 2) (ClientConnect ?c1),
                             Log ''PostgreSQL listener connected successfully'',
                             Request (?n + 3) (ClientQuery ?c1 Sql_createFunctionQuery)]\<rparr>"
  have s4: "step parse run (Fulfilled (?n + 2)) ?S3 = ?S4"
    using l fresh by (simp add: defs del: map_of_append)
  let ?S5 = "s\<lparr>client := Some ?c1, isListening := False, next_client := Suc ?c1,
             pending := pending s @ [(?n + 4, Await_createTriggerQuery Caller_reconnect)],
             next_op := ?n + 5,
             trace := ?t1 @ [Request (?n + 1) (SetTimeout 5000),
                             Request (?n + 2) (ClientConnect ?c1),
                             Log ''PostgreSQL listener connected successfully'',
                             Request (?n + 3) (ClientQuery ?c1 Sql_createFunctionQuery),
                             Request (?n + 4) (ClientQuery ?c1 Sql_createTriggerQuery)]\<rparr>"
  have s5: "step parse run (Fulfilled (?n + 3)) ?S4 = ?S5"
    using l fresh by (simp add: defs del: map_of_append)
  let ?S6 = "s\<lparr>client := Some ?c1, isListening := False, next_client := Suc ?c1,
             pending := pending s @ [(?n + 5, Await_LISTEN Caller_reconnect)],
             next_op := ?n + 6,
             trace := ?t1 @ [Request (?n + 1) (SetTimeout 5000),
                             Request (?n + 2) (ClientConnect ?c1),
                             Log ''PostgreSQL listener connected successfully'',
                             Request (?n + 3) (ClientQuery ?c1 Sql_createFunctionQuery),
                             Request (?n + 4) (ClientQuery ?c1 Sql_createTriggerQuery),
                             Log ''PostgreSQL triggers set up successfully'',
                             Request (?n + 5) (ClientQuery ?c1 (LISTEN ''message_changes''))]\<rparr>"
  have s6: "step parse run (Fulfilled (?n + 4)) ?S5 = ?S6"
    using l fresh by (simp add: defs del: map_of_append)
  have s7: "step parse run (Fulfilled (?n + 5)) ?S6 =
           s\<lparr>client := Some (next_client s),
             isListening := True,
             next_client := Suc (next_client s),
             handlers_on := (handlers_on s)(next_client s := Suc (handlers_on s (next_client s))),
             next_op := next_op s + 6,
             trace := trace s @ [Log ''PostgreSQL listener connection ended'',
               Log ''Attempting to reconnect PostgreSQL listener...'',
               Request (next_op s) (ClientEnd c),
               Request (next_op s + 1) (SetTimeout 5000),
               Request (next_op s + 2) (ClientConnect (next_client s)),
               Log ''PostgreSQL listener connected successfully'',
               Request (next_op s + 3) (ClientQuery (next_client s) Sql_createFunctionQuery),
               Request (next_op s + 4) (ClientQuery (next_client s) Sql_createTriggerQuery),
               Log ''PostgreSQL triggers set up successfully'',
               Request (next_op s + 5) (ClientQuery (next_client s) (LISTEN ''message_changes'')),
               Log ''Started listening to message_changes channel'']\<rparr>"
    using l fresh by (simp add: defs del: map_of_append)
  have evs: "successful_connect (?n + 2)
      = [Fulfilled (?n + 2), Fulfilled (?n + 3), Fulfilled (?n + 4), Fulfilled (?n + 5)]"
    by (simp add: successful_connect_def)
  have "steps parse run
           ([Client_end c, Fulfilled (next_op s), Fulfilled (Suc (next_op s))]
             @ successful_connect (next_op s + 2)) s
        = step parse run (Fulfilled (?n + 5)) (step parse run (Fulfilled (?n + 4))
            (step parse run (Fulfilled (?n + 3)) (step parse run (Fulfilled (?n + 2))
              (step parse run (Fulfilled (Suc ?n)) (step parse run (Fulfilled ?n)
                (step parse run (Client_end c) s))))))"
    by (simp only: evs steps_def append.simps foldl.simps)
  then show "steps parse run
           ([Client_end c, Fulfilled (next_op s), Fulfilled (Suc (next_op s))]
             @ successful_connect (next_op s + 2)) s =
           s\<lparr>client := Some (next_client s),
             isListening := True,
             next_client := Suc (next_client s),
             handlers_on := (handlers_on s)(next_client s := Suc (handlers_on s (next_client s))),
             next_op := next_op s + 6,
             trace := trace s @ [Log ''PostgreSQL listener connection ended'',
               Log ''Attempting to reconnect PostgreSQL listener...'',
               Request (next_op s) (ClientEnd c),
               Request (next_op s + 1) (SetTimeout 5000),
               Request (next_op s + 2) (ClientConnect (next_client s)),
               Log ''PostgreSQL listener connected successfully'',
               Request (next_op s + 3) (ClientQuery (next_client s) Sql_createFunctionQuery),
               Request (next_op s + 4) (ClientQuery (next_client s) Sql_createTriggerQuery),
               Log ''PostgreSQL triggers set up successfully'',
               Request (next_op s + 5) (ClientQuery (next_client s) (LISTEN ''message_changes'')),
               Log ''Started listening to message_changes channel'']\<rparr>"
    unfolding s1 s2 s3 s4 s5 s6 s7 .
  let ?R2 = "s\<lparr>isListening := False,
             pending := pending s @ [(Suc ?n, Retry_timer)],
             next_op := ?n + 2,
             trace := ?t1 @ [LogErr ''Reconnection failed:'' e,
                             Request (?n + 1) (SetTimeout 10000)]\<rparr>"
  have r2: "step parse run (Rejected ?n e) ?S1 = ?R2"
    using l fresh by (simp add: defs del: map_of_append)
  have r3: "step parse run (Fulfilled (Suc ?n)) ?R2 =
           s\<lparr>isListening := False,
             pending := pending s @ [(next_op s + 2, Await_reconnect_end)],
             next_op := next_op s + 3,
             trace := trace s @ [Log ''PostgreSQL listener connection ended'',
               Log ''Attempting to reconnect PostgreSQL listener...'',
               Request (next_op s) (ClientEnd c),
               LogErr ''Reconnection failed:'' e,
               Request (next_op s + 1) (SetTimeout 10000),
               Log ''Attempting to reconnect PostgreSQL listener...'',
               Request (next_op s + 2) (ClientEnd c)]\<rparr>"
    using l fresh by (simp add: defs del: map_of_append)
  have "steps parse run [Client_end c, Rejected (next_op s) e, Fulfilled (Suc (next_op s))] s
      = step parse run (Fulfilled (Suc ?n)) (step parse run (Rejected ?n e)
          (step parse run (Client_end c) s))"
    by (simp only: steps_def foldl.simps)
  then show "steps parse run [Client_end c, Rejected (next_op s) e, Fulfilled (Suc (next_op s))] s =
           s\<lparr>isListening := False,
             pending := pending s @ [(next_op s + 2, Await_reconnect_end)],
             next_op := next_op s + 3,
             trace := trace s @ [Log ''PostgreSQL listener connection ended'',
               Log ''Attempting to reconnect PostgreSQL listener...'',
               Request (next_op s) (ClientEnd c),
               LogErr ''Reconnection failed:'' e,
               Request (next_op s + 1) (SetTimeout 10000),
               Log ''Attempting to reconnect PostgreSQL listener...'',
               Request (next_op s + 2) (ClientEnd c)]\<rparr>"
    unfolding s1 r2 r3 .
  have f4: "step parse run (Rejected (?n + 2) e) ?S3 =
           s\<lparr>client := Some (next_client s),
             isListening := False,
             next_client := Suc (next_client s),
             pending := pending s @ [(next_op s + 3, Retry_timer)],
             next_op := next_op s + 4,
             trace := trace s @ [Log ''PostgreSQL listener connection ended'',
               Log ''Attempting to reconnect PostgreSQL listener...'',
               Request (next_op s) (ClientEnd c),
               Request (next_op s + 1) (SetTimeout 5000),
               Request (next_op s + 2) (ClientConnect (next_client s)),
               LogErr ''Failed to connect PostgreSQL listener:'' e,
               LogErr ''Reconnection failed:'' e,
               Request (next_op s + 3) (SetTimeout 10000)]\<rparr>"
    using l fresh by (simp add: defs del: map_of_append)
  have "steps parse run
           [Client_end c, Fulfilled (next_op s), Fulfilled (Suc (next_op s)),
            Rejected (next_op s + 2) e] s
      = step parse run (Rejected (?n + 2) e) (step parse run (Fulfilled (Suc ?n))
          (step parse run (Fulfilled ?n) (step parse run (Client_end c) s)))"
    by (simp only: steps_def foldl.simps)
  then show "steps parse run
           [Client_end c, Fulfilled (next_op s), Fulfilled (Suc (next_op s)),
            Rejected (next_op s + 2) e] s =
           s\<lparr>client := Some (next_client s),
             isListening := False,
             next_client := Suc (next_client s),
             pending := pending s @ [(next_op s + 3, Retry_timer)],
             next_op := next_op s + 4,
             trace := trace s @ [Log ''PostgreSQL listener connection ended'',
               Log ''Attempting to reconnect PostgreSQL listener...'',
               Request (next_op s) (ClientEnd c),
               Request (next_op s + 1) (SetTimeout 5000),
               Request (next_op s + 2) (ClientConnect (next_client s)),
               LogErr ''Failed to connect PostgreSQL listener:'' e,
               LogErr ''Reconnection failed:'' e,
               Request (next_op s + 3) (SetTimeout 10000)]\<rparr>"
    unfolding s1 s2 s3 f4 .
qed

text \<open>No event of the connection or of an awaited operation reaches a subscriber or a
  caller, as long as the application itself is not awaiting a \<^verbatim>\<open>connect()\<close>.\<close>

lemmas quiet_defs =
  no_api_connect_def surfaced_def await_def say_def connect_def reconnect_def
  reconnect_catch_def connect_throws_def connect_returns_def setupTriggers_def
  setupTriggers_throws_def startListening_def startListening_throws_def
  disconnect_catch_def testNotification_catch_def
  deliveries_append rejections_append Let_def

lemma reconnect_quiet:
  "no_api_connect s \<Longrightarrow> no_api_connect (reconnect s) \<and> surfaced (reconnect s) = surfaced s"
  by (auto simp: quiet_defs split: option.splits)

lemma resume_quiet:
  assumes "awaited_by k \<noteq> Some Caller_api" and "no_api_connect s"
  shows "no_api_connect (resume k r s) \<and> surfaced (resume k r s) = surfaced s"
proof (cases k)
  case (Await_client_connect who)
  with assms show ?thesis by (cases who; cases r) (auto simp: quiet_defs split: option.splits)
next
  case (Await_createFunctionQuery who)
  with assms show ?thesis by (cases who; cases r) (auto simp: quiet_defs split: option.splits)
next
  case (Await_createTriggerQuery who)
  with assms show ?thesis by (cases who; cases r) (auto simp: quiet_defs split: option.splits)
next
  case (Await_LISTEN who)
  with assms show ?thesis by (cases who; cases r) (auto simp: quiet_defs split: option.splits)
next
  case Await_reconnect_end
  with assms show ?thesis by (cases r) (auto simp: quiet_defs)
next
  case Await_reconnect_delay
  with assms show ?thesis by (auto simp: quiet_defs)
next
  case Retry_timer
  with assms show ?thesis using reconnect_quiet[of s] by simp
next
  case Await_UNLISTEN
  with assms show ?thesis by (cases r) (auto simp: quiet_defs split: option.splits)
next
  case Await_disconnect_end
  with assms show ?thesis by (cases r) (auto simp: quiet_defs)
next
  case Await_pg_notify
  with assms show ?thesis by (cases r) (auto simp: quiet_defs)
qed

lemma settle_quiet:
  assumes "no_api_connect s"
  shows "no_api_connect (settle n r s) \<and> surfaced (settle n r s) = surfaced s"
proof (cases "map_of (pending s) n")
  case None
  with assms show ?thesis by (simp add: settle_def)
next
  case (Some k)
  then have "(n, k) \<in> set (pending s)" by (rule map_of_SomeD)
  with assms have k: "awaited_by k \<noteq> Some Caller_api"
    by (auto simp: no_api_connect_def list_all_iff)
  let ?s1 = "s\<lparr>pending := filter (\<lambda>p. fst p \<noteq> n) (pending s)\<rparr>"
  from assms have s1: "no_api_connect ?s1" and same: "surfaced ?s1 = surfaced s"
    by (auto simp: no_api_connect_def list_all_iff surfaced_def)
  from resume_quiet[OF k s1, of r] same Some assms show ?thesis
    by (simp add: settle_def)
qed

lemma funpow_quiet:
  assumes f: "\<And>s. no_api_connect s \<Longrightarrow> no_api_connect (f s) \<and> surfaced (f s) = surfaced s"
  shows "no_api_connect s \<Longrightarrow> no_api_connect ((f ^^ n) s) \<and> surfaced ((f ^^ n) s) = surfaced s"
proof (induction n)
  case 0
  then show ?case by simp
next
  case (Suc n)
  from Suc.IH[OF Suc.prems] f[of "(f ^^ n) s"] show ?case by simp
qed

lemma on_error_quiet:
  "no_api_connect s \<Longrightarrow> no_api_connect (on_error e s) \<and> surfaced (on_error e s) = surfaced s"
  by (auto simp: on_error_def quiet_defs split: option.splits)

lemma on_end_quiet:
  "no_api_connect s \<Longrightarrow> no_api_connect (on_end s) \<and> surfaced (on_end s) = surfaced s"
  by (auto simp: on_end_def quiet_defs split: option.splits)

lemma step_quiet:
  assumes "connection_event ev" and "no_api_connect s"
  shows "no_api_connect (step parse run ev s) \<and> surfaced (step parse run ev s) = surfaced s"
proof (cases ev)
  case (Fulfilled n)
  with settle_quiet[OF assms(2)] show ?thesis by simp
next
  case (Rejected n e)
  with settle_quiet[OF assms(2)] show ?thesis by simp
next
  case (Client_error c e)
  show ?thesis
  proof (cases "handlers_on s c = 0")
    case True
    with Client_error assms(2) show ?thesis by (auto simp: quiet_defs)
  next
    case False
    with Client_error funpow_quiet[of "on_error e", OF on_error_quiet assms(2)]
    show ?thesis by simp
  qed
next
  case (Client_end c)
  with funpow_quiet[of on_end, OF on_end_quiet assms(2)] show ?thesis by simp
qed (use assms in simp_all)

lemma steps_quiet:
  "list_all connection_event evs \<Longrightarrow> no_api_connect s \<Longrightarrow>
     no_api_connect (steps parse run evs s) \<and> surfaced (steps parse run evs s) = surfaced s"
proof (induction evs arbitrary: s)
  case Nil
  then show ?case by (simp add: steps_def)
next
  case (Cons ev evs)
  from Cons.prems have ev: "connection_event ev" and evs: "list_all connection_event evs"
    by simp_all
  from step_quiet[OF ev Cons.prems(2), of parse run]
  have q: "no_api_connect (step parse run ev s)"
    and same: "surfaced (step parse run ev s) = surfaced s"
    by simp_all
  from Cons.IH[OF evs q] same show ?case by (simp add: steps_def)
qed

lemma connection_failure_events: "list_all connection_event (connection_failure c errs)"
  by (simp add: connection_failure_def list_all_iff)


text \<open>
  Claim C2. The client the listener is listening on loses its connection: it emits
  \<^verbatim>\<open>error\<close> any number of times, then \<^verbatim>\<open>end\<close>. Every \<^verbatim>\<open>error\<close> callback is logged and stops
  at the guard of \<^verbatim>\<open>reconnect()\<close>, since \<^verbatim>\<open>isListening\<close> is still true; \<^verbatim>\<open>end\<close> clears
  \<^verbatim>\<open>isListening\<close> and starts one reconnect attempt, exactly one whatever the number of
  \<^verbatim>\<open>error\<close> callbacks. The attempt closes the old client, waits five seconds and calls
  \<^verbatim>\<open>connect()\<close>: a new client, the two trigger queries, LISTEN, and the listener is
  listening again. When the close or the \<^verbatim>\<open>connect()\<close> fails, a timer of ten seconds is
  set, and when it fires \<^verbatim>\<open>reconnect()\<close> starts the next attempt. Whatever then happens
  to the connection and to the awaited operations, no subscriber is called, no promise
  of a public method is rejected and the registry is untouched.
\<close>

theorem connection_failure_reconnects:
  assumes "listening_on s c" and "ops_fresh s" and "no_api_connect s"
  shows "steps parse run (connection_failure c errs) s =
           s\<lparr>isListening := False,
             pending := pending s @ [(next_op s, Await_reconnect_end)],
             next_op := Suc (next_op s),
             trace := trace s @ map (LogErr ''PostgreSQL listener error:'') errs
               @ [Log ''PostgreSQL listener connection ended'',
                  Log ''Attempting to reconnect PostgreSQL listener...'',
                  Request (next_op s) (ClientEnd c)]\<rparr>
       \<and> steps parse run
           (connection_failure c errs @ [Fulfilled (next_op s), Fulfilled (Suc (next_op s))]
             @ successful_connect (next_op s + 2)) s =
           s\<lparr>client := Some (next_client s),
             isListening := True,
             next_client := Suc (next_client s),
             handlers_on := (handlers_on s)(next_client s := Suc (handlers_on s (next_client s))),
             next_op := next_op s + 6,
             trace := trace s @ map (LogErr ''PostgreSQL listener error:'') errs
               @ [Log ''PostgreSQL listener connection ended'',
                  Log ''Attempting to reconnect PostgreSQL listener...'',
                  Request (next_op s) (ClientEnd c),
                  Request (next_op s + 1) (SetTimeout 5000),
                  Request (next_op s + 2) (ClientConnect (next_client s)),
                  Log ''PostgreSQL listener connected successfully'',
                  Request (next_op s + 3) (ClientQuery (next_client s) Sql_createFunctionQuery),
                  Request (next_op s + 4) (ClientQuery (next_client s) Sql_createTriggerQuery),
                  Log ''PostgreSQL triggers set up successfully'',
                  Request (next_op s + 5)
                    (ClientQuery (next_client s) (LISTEN ''message_changes'')),
                  Log ''Started listening to message_changes channel'']\<rparr>
       \<and> steps parse run
           (connection_failure c errs @ [Rejected (next_op s) e, Fulfilled (Suc (next_op s))]) s =
           s\<lparr>isListening := False,
             pending := pending s @ [(next_op s + 2, Await_reconnect_end)],
             next_op := next_op s + 3,
             trace := trace s @ map (LogErr ''PostgreSQL listener error:'') errs
               @ [Log ''PostgreSQL listener connection ended'',
                  Log ''Attempting to reconnect PostgreSQL listener...'',
                  Request (next_op s) (ClientEnd c),
                  LogErr ''Reconnection failed:'' e,
                  Request (next_op s + 1) (SetTimeout 10000),
                  Log ''Attempting to reconnect PostgreSQL listener...'',
                  Request (next_op s + 2) (ClientEnd c)]\<rparr>
       \<and> steps parse run
           (connection_failure c errs @ [Fulfilled (next_op s), Fulfilled (Suc (next_op s)),
              Rejected (next_op s + 2) e]) s =
           s\<lparr>client := Some (next_client s),
             isListening := False,
             next_client := Suc (next_client s),
             pending := pending s @ [(next_op s + 3, Retry_timer)],
             next_op := next_op s + 4,
             trace := trace s @ map (LogErr ''PostgreSQL listener error:'') errs
               @ [Log ''PostgreSQL listener connection ended'',
                  Log ''Attempting to reconnect PostgreSQL listener...'',
                  Request (next_op s) (ClientEnd c),
                  Request (next_op s + 1) (SetTimeout 5000),
                  Request (next_op s + 2) (ClientConnect (next_client s)),
                  LogErr ''Failed to connect PostgreSQL listener:'' e,
                  LogErr ''Reconnection failed:'' e,
                  Request (next_op s + 3) (SetTimeout 10000)]\<rparr>
       \<and> (list_all connection_event evs \<longrightarrow>
            surfaced (steps parse run (connection_failure c errs @ evs) s) = surfaced s)"
proof -
  let ?s1 = "s\<lparr>trace := trace s @ map (LogErr ''PostgreSQL listener error:'') errs\<rparr>"
  from assms(1) have l: "isListening s" "handlers_on s c = Suc 0"
    by (simp_all add: listening_on_def)
  have errors: "steps parse run (map (Client_error c) errs) s = ?s1"
    using l by (rule errors_while_listening)
  have s1: "listening_on ?s1 c" "ops_fresh ?s1"
    using assms(1,2) by (simp_all add: listening_on_def ops_fresh_def)
  have split: "\<And>evs. steps parse run (connection_failure c errs @ evs) s
      = steps parse run (Client_end c # evs) ?s1"
    using errors by (simp add: connection_failure_def steps_append del: append.simps)
      (simp add: steps_def)
  have first: "steps parse run (connection_failure c errs) s = step parse run (Client_end c) ?s1"
    using split[of "[]"] by (simp add: steps_def)
  have quiet: "list_all connection_event evs \<longrightarrow>
      surfaced (steps parse run (connection_failure c errs @ evs) s) = surfaced s"
  proof
    assume "list_all connection_event evs"
    with connection_failure_events[of c errs]
    have "list_all connection_event (connection_failure c errs @ evs)" by simp
    from steps_quiet[OF this assms(3)] show
      "surfaced (steps parse run (connection_failure c errs @ evs) s) = surfaced s" by simp
  qed
  show ?thesis
    unfolding first split
    using end_while_listening[OF s1, of parse run] end_while_listening(3,4)[OF s1, of parse run e]
      quiet[unfolded split]
    by simp
qed

text \<open>A listener that connected; its client reports two errors and ends; the attempt
  succeeds.\<close>

theorem connection_failure_reconnects_witness:
  "isListening (steps toy_parse quiet
      (Call_connect # successful_connect 0
        @ connection_failure 0 [Error ''ECONNRESET'', Error ''Connection terminated unexpectedly'']
        @ [Fulfilled 4, Fulfilled 5] @ successful_connect 6) constructor)
   \<and> client (steps toy_parse quiet
      (Call_connect # successful_connect 0
        @ connection_failure 0 [Error ''ECONNRESET'', Error ''Connection terminated unexpectedly'']
        @ [Fulfilled 4, Fulfilled 5] @ successful_connect 6) constructor) = Some 1
   \<and> pending (steps toy_parse quiet
      (Call_connect # successful_connect 0
        @ connection_failure 0 [Error ''ECONNRESET'', Error ''Connection terminated unexpectedly''])
      constructor) = [(4, Await_reconnect_end)]"
proof -
  let ?s = "steps toy_parse quiet (Call_connect # successful_connect 0) constructor"
  let ?errs = "[Error ''ECONNRESET'', Error ''Connection terminated unexpectedly'']"
  have s: "listening_on ?s 0" "ops_fresh ?s" "no_api_connect ?s"
    and n: "next_op ?s = 4" "next_client ?s = 1" "pending ?s = []"
    by (simp_all add: successful_connect_def lifecycle_defs ops_fresh_def listening_on_def
        no_api_connect_def)
  have a: "steps toy_parse quiet
      (Call_connect # successful_connect 0 @ connection_failure 0 ?errs
        @ [Fulfilled 4, Fulfilled 5] @ successful_connect 6) constructor
    = steps toy_parse quiet
        (connection_failure 0 ?errs @ [Fulfilled 4, Fulfilled 5] @ successful_connect 6) ?s"
    and b: "steps toy_parse quiet
      (Call_connect # successful_connect 0 @ connection_failure 0 ?errs) constructor
    = steps toy_parse quiet (connection_failure 0 ?errs) ?s"
    by (simp_all add: steps_def)
  from connection_failure_reconnects[OF s, of toy_parse quiet ?errs] n
  show ?thesis unfolding a b by simp
qed


text \<open>What \<^verbatim>\<open>disconnect()\<close> itself does on a listener with a client, when UNLISTEN and the
  close succeed: UNLISTEN is sent, then the client is closed, then \<^verbatim>\<open>isListening\<close> is
  cleared; it starts no timer and no operation of its own is left awaited.\<close>

lemma disconnect_unlistens_then_closes:
  assumes "client s = Some c" and "ops_fresh s"
  shows "steps parse run [Call_disconnect, Fulfilled (next_op s), Fulfilled (Suc (next_op s))] s =
           s\<lparr>isListening := False,
             next_op := next_op s + 2,
             trace := trace s @ [Request (next_op s) (ClientQuery c (UNLISTEN ''message_changes'')),
               Request (Suc (next_op s)) (ClientEnd c),
               Log ''PostgreSQL listener disconnected'',
               Settled Api_disconnect None]\<rparr>"
  using assms
  by (simp add: lifecycle_defs handler_defs lookup_new_op drop_new_op eval_nat_numeral
      del: map_of_append)

text \<open>
  Claim C3. The code breaks it. The listener connects and the application calls
  \<^verbatim>\<open>disconnect()\<close>: UNLISTEN is sent, the client is closed, \<^verbatim>\<open>isListening\<close> is cleared and
  the promise of \<^verbatim>\<open>disconnect()\<close> is fulfilled. The closed client emits \<^verbatim>\<open>end\<close> (before or
  after \<^verbatim>\<open>disconnect()\<close> resumes); the handler of \<^verbatim>\<open>startListening\<close> is still attached and
  calls \<^verbatim>\<open>reconnect()\<close>, whose guard passes because \<^verbatim>\<open>isListening\<close> is false. With no
  further call of \<^verbatim>\<open>connect()\<close> by the application, a second client is opened, the
  trigger queries and LISTEN are sent, and the listener is listening again.
\<close>

theorem reconnects_after_disconnect:
  "isListening (steps toy_parse quiet
      (Call_connect # successful_connect 0
        @ [Call_disconnect, Fulfilled 4, Fulfilled 5, Client_end 0, Fulfilled 6, Fulfilled 7]
        @ successful_connect 8) constructor)
   \<and> client (steps toy_parse quiet
      (Call_connect # successful_connect 0
        @ [Call_disconnect, Fulfilled 4, Fulfilled 5, Client_end 0, Fulfilled 6, Fulfilled 7]
        @ successful_connect 8) constructor) = Some 1
   \<and> settled (trace (steps toy_parse quiet
      (Call_connect # successful_connect 0
        @ [Call_disconnect, Fulfilled 4, Fulfilled 5, Client_end 0, Fulfilled 6, Fulfilled 7]
        @ successful_connect 8) constructor))
      = [(Api_connect, None), (Api_disconnect, None)]
   \<and> requests (trace (steps toy_parse quiet
      (Call_connect # successful_connect 0
        @ [Call_disconnect, Fulfilled 4, Fulfilled 5, Client_end 0, Fulfilled 6, Fulfilled 7]
        @ successful_connect 8) constructor))
      = [ClientConnect 0, ClientQuery 0 Sql_createFunctionQuery,
         ClientQuery 0 Sql_createTriggerQuery, ClientQuery 0 (LISTEN ''message_changes''),
         ClientQuery 0 (UNLISTEN ''message_changes''), ClientEnd 0,
         ClientEnd 0, SetTimeout 5000,
         ClientConnect 1, ClientQuery 1 Sql_createFunctionQuery,
         ClientQuery 1 Sql_createTriggerQuery, ClientQuery 1 (LISTEN ''message_changes'')]
   \<and> isListening (steps toy_parse quiet
      (Call_connect # successful_connect 0
        @ [Call_disconnect, Fulfilled 4, Client_end 0, Fulfilled 5, Fulfilled 6, Fulfilled 7]
        @ successful_connect 8) constructor)"
  by (simp add: successful_connect_def lifecycle_defs handler_defs)

end
